theory Spec2Isabelle
  imports Main "HOL-Library.Char_ord" "HOL-Library.List_Lexorder"
begin

text \<open>
  A model of juicyurls, a command-line tool that reads URLs from a file, one per line,
  and reports those that match patterns of four categories (keywords, extensions,
  paths, hidden files) unless an exclusion pattern matches. The sources modelled are the
  current main.go (classifier, validity check, worker pool, chunked reading,
  deduplication and output), its refactoring into internal/checker/checker.go and
  cmd/juicyurls/main.go, the pattern lists of package \<open>suspicious\<close> and the tests. The
  definitions come first; the properties proved of them follow.
\<close>

section \<open>Strings as Go has them\<close>

text \<open>
  A Go string is a sequence of bytes and \<open>len\<close> counts bytes, so a string is a
  \<open>char list\<close> here. The model covers ASCII text: on it \<open>strings.ToLower\<close>, the
  \<open>(?i)\<close> flag of package regexp and \<open>strings.TrimSpace\<close> act as written below
  (the non-ASCII letters and spaces of Unicode are outside the model).
\<close>

definition toLowerByte :: "char \<Rightarrow> char" where
  "toLowerByte c =
     (case map_of (zip ''ABCDEFGHIJKLMNOPQRSTUVWXYZ'' ''abcdefghijklmnopqrstuvwxyz'') c of
        Some l \<Rightarrow> l
      | None \<Rightarrow> c)"

definition ToLower :: "string \<Rightarrow> string" where
  "ToLower s = map toLowerByte s"

text \<open>The ASCII white space of \<open>unicode.IsSpace\<close>: tab, line feed, vertical tab,
  form feed, carriage return and space.\<close>

definition isSpaceByte :: "char \<Rightarrow> bool" where
  "isSpaceByte c =
     (c = CHR 0x09 \<or> c = CHR 0x0A \<or> c = CHR 0x0B \<or> c = CHR 0x0C \<or> c = CHR 0x0D \<or> c = CHR '' '')"

definition TrimSpace :: "string \<Rightarrow> string" where
  "TrimSpace s = rev (dropWhile isSpaceByte (rev (dropWhile isSpaceByte s)))"

fun HasPrefix :: "string \<Rightarrow> string \<Rightarrow> bool" where
  "HasPrefix s [] = True"
| "HasPrefix [] (b # p) = False"
| "HasPrefix (a # s) (b # p) = (a = b \<and> HasPrefix s p)"

fun Contains :: "string \<Rightarrow> string \<Rightarrow> bool" where
  "Contains [] sub = (sub = [])"
| "Contains (a # s) sub = (HasPrefix (a # s) sub \<or> Contains s sub)"

text \<open>\<open>strings.Split(s, ",")\<close>: the pieces between the commas; one empty piece for
  the empty string.\<close>

fun Split_comma :: "string \<Rightarrow> string list" where
  "Split_comma [] = [] # []"
| "Split_comma (c # cs) =
     (if c = CHR '','' then [] # Split_comma cs
      else (case Split_comma cs of
              [] \<Rightarrow> [c] # []
            | w # ws \<Rightarrow> (c # w) # ws))"

section \<open>The compiled patterns\<close>

text \<open>
  The code compiles two shapes of regular expression only:
  \<open>"(?i)" + regexp.QuoteMeta(p)\<close>, a literal found anywhere in the text whatever the
  case of its letters, and \<open>"(?i)" + regexp.QuoteMeta(p) + "$"\<close>, the same literal at
  the end of the text. A quoted literal always compiles on the text modelled, so the
  \<open>err == nil\<close> test of the source never drops a pattern here.
\<close>

datatype Regexp = Lit string | LitEnd string

fun hasPrefixFold :: "string \<Rightarrow> string \<Rightarrow> bool" where
  "hasPrefixFold [] s = True"
| "hasPrefixFold (a # p) [] = False"
| "hasPrefixFold (a # p) (b # s) = (toLowerByte a = toLowerByte b \<and> hasPrefixFold p s)"

fun containsFold :: "string \<Rightarrow> string \<Rightarrow> bool" where
  "containsFold p [] = (p = [])"
| "containsFold p (b # s) = (hasPrefixFold p (b # s) \<or> containsFold p s)"

fun MatchString :: "Regexp \<Rightarrow> string \<Rightarrow> bool" where
  "MatchString (Lit p) s = containsFold p s"
| "MatchString (LitEnd p) s = hasPrefixFold (rev p) (rev s)"

text \<open>The pattern lists of package \<open>suspicious\<close>: package-level variables, which the
  tests overwrite, so the classifier takes them as an argument.\<close>

record PatternTable =
  Keywords :: "string list"
  Extensions :: "string list"
  Paths :: "string list"
  Hidden :: "string list"

section \<open>The classifier\<close>

definition maxURLLength :: nat where
  "maxURLLength = 2048"

record URLChecker =
  checkKeywords :: bool
  checkExtensions :: bool
  checkPaths :: bool
  checkHidden :: bool
  excludePatterns :: "string list"
  excludeRegexes :: "Regexp list"
  keywordRegexes :: "Regexp list"
  extensionRegexes :: "Regexp list"
  pathRegexes :: "Regexp list"
  hiddenRegexes :: "Regexp list"
  compiledOnce :: bool

text \<open>A struct literal that sets the four flags and the exclusion patterns; every
  other field has Go's zero value (nil slices, a \<open>sync.Once\<close> not yet run).\<close>

definition URLChecker_literal :: "bool \<Rightarrow> bool \<Rightarrow> bool \<Rightarrow> bool \<Rightarrow> string list \<Rightarrow> URLChecker" where
  "URLChecker_literal kw ex pa hi excl =
     \<lparr> checkKeywords = kw, checkExtensions = ex, checkPaths = pa, checkHidden = hi,
       excludePatterns = excl, excludeRegexes = [], keywordRegexes = [],
       extensionRegexes = [], pathRegexes = [], hiddenRegexes = [],
       compiledOnce = False \<rparr>"

text \<open>\<open>compileRegexes\<close> (main.go and internal/checker/checker.go, the same body): the
  body runs once, guarded by \<open>compiledOnce\<close>, and appends to the five lists.\<close>

definition compileRegexes :: "PatternTable \<Rightarrow> URLChecker \<Rightarrow> URLChecker" where
  "compileRegexes tbl c =
     (if compiledOnce c then c
      else c \<lparr> excludeRegexes := excludeRegexes c @ map Lit (excludePatterns c),
               keywordRegexes :=
                 keywordRegexes c @ (if checkKeywords c then map Lit (Keywords tbl) else []),
               extensionRegexes :=
                 extensionRegexes c @ (if checkExtensions c then map LitEnd (Extensions tbl) else []),
               pathRegexes :=
                 pathRegexes c @ (if checkPaths c then map Lit (Paths tbl) else []),
               hiddenRegexes :=
                 hiddenRegexes c @ (if checkHidden c then map Lit (Hidden tbl) else []),
               compiledOnce := True \<rparr>)"

text \<open>One \<open>for _, regex := range rs { if regex.MatchString(rawURL) { return ... } }\<close>
  loop returns on the first expression that matches.\<close>

definition anyMatch :: "Regexp list \<Rightarrow> string \<Rightarrow> bool" where
  "anyMatch rs rawURL = list_ex (\<lambda>regex. MatchString regex rawURL) rs"

text \<open>The five loops that follow the entry test of \<open>isSuspicious\<close> and of
  \<open>IsSuspicious\<close>, in the order of the source.\<close>

definition matchLoops :: "URLChecker \<Rightarrow> string \<Rightarrow> bool \<times> string \<times> string" where
  "matchLoops c rawURL =
     (if anyMatch (excludeRegexes c) rawURL then (False, '''', '''')
      else if anyMatch (keywordRegexes c) rawURL
        then (True, ''keywords'', ''Contains suspicious keyword'')
      else if anyMatch (extensionRegexes c) rawURL
        then (True, ''extensions'', ''Suspicious file extension'')
      else if anyMatch (pathRegexes c) rawURL
        then (True, ''paths'', ''Suspicious path pattern'')
      else if anyMatch (hiddenRegexes c) rawURL
        then (True, ''hidden'', ''Hidden file or directory'')
      else (False, '''', ''''))"

text \<open>\<open>isSuspicious\<close> of main.go. It has a pointer receiver and compiles the
  patterns on its first call that passes the entry test, so it returns the checker
  as well.\<close>

definition isSuspicious ::
  "PatternTable \<Rightarrow> URLChecker \<Rightarrow> string \<Rightarrow> (bool \<times> string \<times> string) \<times> URLChecker" where
  "isSuspicious tbl c rawURL =
     (if rawURL = [] \<or> length rawURL > maxURLLength then ((False, '''', ''''), c)
      else (let c' = compileRegexes tbl c in (matchLoops c' rawURL, c')))"

text \<open>\<open>IsSuspicious\<close> of internal/checker/checker.go: no length test and no
  compilation (the constructor has compiled).\<close>

definition IsSuspicious :: "URLChecker \<Rightarrow> string \<Rightarrow> bool \<times> string \<times> string" where
  "IsSuspicious c rawURL = (if rawURL = [] then (False, '''', '''') else matchLoops c rawURL)"

text \<open>\<open>NewURLChecker\<close> of internal/checker/checker.go.\<close>

definition enableCategory :: "string \<Rightarrow> URLChecker \<Rightarrow> URLChecker" where
  "enableCategory category uc =
     (let k = TrimSpace (ToLower category) in
      if k = ''keywords'' then uc \<lparr> checkKeywords := True \<rparr>
      else if k = ''extensions'' then uc \<lparr> checkExtensions := True \<rparr>
      else if k = ''paths'' then uc \<lparr> checkPaths := True \<rparr>
      else if k = ''hidden'' then uc \<lparr> checkHidden := True \<rparr>
      else uc)"

definition NewURLChecker :: "PatternTable \<Rightarrow> string \<Rightarrow> string \<Rightarrow> URLChecker" where
  "NewURLChecker tbl categories excludes =
     (let excl = (if excludes \<noteq> [] then map TrimSpace (Split_comma excludes) else []);
          uc = URLChecker_literal False False False False excl;
          uc' = (if categories \<noteq> [] then fold enableCategory (Split_comma categories) uc
                 else uc \<lparr> checkKeywords := True, checkExtensions := True,
                           checkPaths := True, checkHidden := True \<rparr>)
      in compileRegexes tbl uc')"

text \<open>A checker is compiled from its own configuration when its five lists are the
  ones \<open>compileRegexes\<close> builds from empty lists.\<close>

definition compiledFrom :: "PatternTable \<Rightarrow> URLChecker \<Rightarrow> bool" where
  "compiledFrom tbl c =
     (excludeRegexes c = map Lit (excludePatterns c) \<and>
      keywordRegexes c = (if checkKeywords c then map Lit (Keywords tbl) else []) \<and>
      extensionRegexes c = (if checkExtensions c then map LitEnd (Extensions tbl) else []) \<and>
      pathRegexes c = (if checkPaths c then map Lit (Paths tbl) else []) \<and>
      hiddenRegexes c = (if checkHidden c then map Lit (Hidden tbl) else []))"

text \<open>The category names a \<open>-m\<close> argument lists, as both constructors read them.\<close>

definition listedCategories :: "string \<Rightarrow> string list" where
  "listedCategories categories = map (\<lambda>category. TrimSpace (ToLower category)) (Split_comma categories)"

section \<open>The validity check\<close>

text \<open>
  \<open>url.Parse\<close> belongs to Go's standard library; the check takes its verdict
  (\<open>err == nil\<close>) as the argument \<open>parseOK\<close>.
\<close>

definition isValidURL :: "(string \<Rightarrow> bool) \<Rightarrow> string \<Rightarrow> bool" where
  "isValidURL parseOK rawURL =
     (if length rawURL = 0 \<or> length rawURL > maxURLLength then False
      else if \<not> parseOK rawURL then False
      else HasPrefix rawURL ''http://'' \<or> HasPrefix rawURL ''https://'' \<or>
           HasPrefix rawURL ''ftp://'' \<or> Contains rawURL ''.'')"

text \<open>\<open>IsValidURL\<close> of internal/checker/checker.go.\<close>

definition IsValidURL :: "(string \<Rightarrow> bool) \<Rightarrow> string \<Rightarrow> bool" where
  "IsValidURL parseOK rawURL =
     (if length rawURL = 0 then False
      else if \<not> parseOK rawURL then False
      else HasPrefix rawURL ''http://'' \<or> HasPrefix rawURL ''https://'' \<or>
           HasPrefix rawURL ''ftp://'' \<or> Contains rawURL ''.'')"

text \<open>The overlong URL of \<open>TestIsValidURL\<close>.\<close>

definition longURL :: string where
  "longURL = ''http://'' @ replicate maxURLLength CHR ''x''"

section \<open>Results and deduplication\<close>

record Result =
  URL :: string
  Category :: string
  Reason :: string

text \<open>\<open>removeDuplicates\<close>: the loop over \<open>results\<close> with its two variables, the map
  \<open>seen\<close> (a \<open>map[string]struct{}\<close>) and the slice \<open>unique\<close>.\<close>

fun removeDuplicates_loop ::
  "Result list \<Rightarrow> (string \<rightharpoonup> unit) \<times> Result list \<Rightarrow> (string \<rightharpoonup> unit) \<times> Result list" where
  "removeDuplicates_loop [] (seen, unique) = (seen, unique)"
| "removeDuplicates_loop (result # rest) (seen, unique) =
     (if seen (URL result) = None
      then removeDuplicates_loop rest (seen(URL result \<mapsto> ()), unique @ [result])
      else removeDuplicates_loop rest (seen, unique))"

definition removeDuplicates :: "Result list \<Rightarrow> Result list" where
  "removeDuplicates results = snd (removeDuplicates_loop results (Map.empty, []))"

text \<open>What the specification asks of deduplication, in its words: the results whose
  URL no earlier result carries, in input order.\<close>

definition firstOccurrences :: "Result list \<Rightarrow> Result list" where
  "firstOccurrences results =
     [results ! i. i \<leftarrow> [0 ..< length results],
                   URL (results ! i) \<notin> set (map URL (take i results))]"

text \<open>\<open>Extensions\<close> and \<open>Hidden\<close> as the source initialises them (the files that
  initialise \<open>Keywords\<close> and \<open>Paths\<close> are not among the sources).\<close>

definition suspicious_Extensions :: "string list" where
  "suspicious_Extensions =
    [''.php'', ''.asp'', ''.aspx'', ''.jsp'', ''.inc'', ''.bak'', ''.zip'', ''.gz'',
     ''.tar'', ''.dat'', ''.json'', ''.env'', ''.conf'', ''.xml'', ''.yml'', ''.yaml'',
     ''.csv'', ''.log'', ''.txt'', ''.sql'', ''.db'', ''.backup'', ''.tar.gz'', ''.tar.bz2'',
     ''.7z'', ''.log'', ''.md'', ''.pem'', ''.key'', ''.crt'', ''.cer'', ''.p12'', ''.pfx'',
     ''.sh'', ''.pl'', ''.rb'', ''.exe'', ''.dll'', ''.msi'', ''.apk'', ''.ipa'', ''.dat'',
     ''.csv'', ''.html'', ''.js'', ''.css'', ''.scss'', ''.less'', ''.h'', ''.cpp'', ''.c'',
     ''.py'', ''.go'', ''.jar'', ''.war'', ''.ear'', ''.class'', ''.swf'', ''.jsonld'',
     ''.sqlite'', ''.db3'', ''.sqlite3'', ''.bak'', ''.orig'', ''.swp'', ''.swo'', ''.lock'',
     ''.vbs'', ''.ps1'', ''.psm1'', ''.cmd'', ''.bat'', ''.config'', ''.ini'', ''.plist'',
     ''.dmg'', ''.iso'', ''.deb'', ''.rpm'', ''.bin'', ''.md5'', ''.sha256'', ''.cna'',
     ''.pub'', ''.pfx'', ''.gpg'', ''.asc'', ''.sql.gz'', ''.sql.bz2'', ''.sql.xz'',
     ''.sql.tgz'', ''.tar.xz'', ''.tar.zst'', ''.zipx'', ''.tar.lzma'', ''.lzo'', ''.bzip2'',
     ''.xz'', ''.lzma'', ''.tgz'', ''.gzip'', ''.tar.xz'', ''.tar.zst'', ''.tar.lz4'',
     ''.tgz'']"

definition suspicious_Hidden :: "string list" where
  "suspicious_Hidden =
    [''.env'', ''.git'', ''.gitignore'', ''.htpasswd'', ''.htaccess'', ''.idea'',
     ''.vscode'', ''.npmrc'', ''.DS_Store'', ''.dockerfile'', ''.travis.yml'',
     ''.yarn.lock'', ''.editorconfig'', ''.bashrc'', ''.bash_profile'', ''.zshrc'', ''.ssh'',
     ''.gitmodules'', ''.history'', ''.npm-debug.log'', ''.gitattributes'',
     ''.dockerignore'', ''.config'', ''.env.production'', ''.env.local'',
     ''.env.development'', ''.env.staging'', ''.env.testing'', ''.gitlab-ci.yml'',
     ''.gitconfig'', ''.credentials'', ''.htpasswd'', ''.heroku.yml'', ''.rails'',
     ''.credentials.yml.enc'', ''.config/database.yml'', ''.gitconfig'', ''.terraform'',
     ''.pylintrc'', ''.flake8'', ''.vimrc'', ''.npmrc'', ''.bash_profile'',
     ''.bash_history'', ''.profile'', ''.zprofile'', ''.irssi'', ''.m2'', ''.gradle'',
     ''.clang-format'', ''.prettierrc'', ''.editorconfig'', ''.python-version'',
     ''.ruby-version'', ''.npm-global'', ''.npmrc'', ''.yarnrc'', ''.envrc'',
     ''.docker-compose.yml'', ''.env.local'', ''.env.example'', ''.travis.yml'', ''.github'',
     ''.gitmodules'', ''.clang-tidy'', ''.terraformrc'', ''.npm-debug.log'', ''.DS_Store'',
     ''.gitignore'', ''.composer.json'', ''.composer.lock'', ''.eslintrc.json'',
     ''.eslintignore'', ''.gitlab-ci.yml'', ''.npm-debug.log'', ''.yarn.lock'', ''.yarnrc'',
     ''.husky'', ''.config.json'', ''.prettierignore'', ''.babelrc'', ''.eslintcache'',
     ''.dockerfile'', ''.dockerignore'', ''.vscode'', ''.aws'', ''.kube'', ''.rails'',
     ''.terraform'', ''.vagrant'', ''.circleci'', ''.ci'', ''.travis.yml'', ''.gitmodules'',
     ''.env.testing'', ''.nx.json'', ''.next'', ''.nextjs'', ''.npm'', ''.yarn'',
     ''.public'', ''.system'', ''.archive'', ''.backup'', ''.log'', ''.temp'', ''.cache'',
     ''.vagrant'', ''.tox'', ''.ci-configuration'', ''.local'', ''.cache'', ''.sandbox'',
     ''.cargo'', ''.xcode'', ''.gradle'', ''.npm-cache'', ''.pnp.js'', ''.jest'', ''.nuxt'',
     ''.yarn-offline-mirror'', ''.firebase'', ''.firebase-debug.log'', ''.firebase.json'',
     ''.nuxt.config.js'', ''.babelrc.json'', ''.npm-shrinkwrap.json'', ''.vscode-test'',
     ''.pyenv'', ''.pyc'', ''.idea'', ''.phantomjs'', ''.webpack'', ''.heroku'',
     ''.fastlane'', ''.apk'', ''.abp'', ''.tsconfig.json'', ''.railsrc'', ''.bash_logout'',
     ''.zsh_history'', ''.config/yarn/global'', ''.pouchdb'', ''.coverage'', ''.rbenv'',
     ''.terraform.d'', ''.vagrantfile'', ''.ci/test'', ''.deploy'', ''.osx'', ''.webconfig'',
     ''.cloud'', ''.codeship'', ''.git-credentials'', ''.subversion'', ''.svn'', ''.maven'',
     ''.codecov.yml'', ''.lintrc'', ''.bundle'', ''.gemfile.lock'', ''.bower.json'',
     ''.buildkite'', ''.sublime-project'', ''.sublime-workspace'', ''.npm-cache'',
     ''.jenkins'', ''.build'', ''.test'', ''.appcache'', ''.dist'', ''.releaserc'',
     ''.lerna.json'', ''.coveralls.yml'', ''.codemagic.yaml'', ''.watchmanconfig'',
     ''.goreleaser.yml'', ''.nyc_output'', ''.lintstagedrc'', ''.coveragerc'',
     ''.prettier.config.js'', ''.ember-cli.js'', ''.gitlab-ci.yml'', ''.ci/local'',
     ''.deployments'', ''.drush'', ''.cloudfront'', ''.babelrc'', ''.storybook'',
     ''.eslintignore'', ''.npm-global'', ''.bit'', ''.agile'', ''.devcontainer'',
     ''.editorconfig'', ''.buildspec.yml'', ''.license-checker'', ''.eslintrc.js'',
     ''.fabric'', ''.boxen'', ''.ci-scripts'', ''.sqlitedb'', ''.docker-compose.override'',
     ''.lerna'', ''.kubernetes'', ''.testconfig'']"

text \<open>The pattern lists the tests install (\<open>TestURLCheckerIsSuspicious\<close>).\<close>

definition test_patterns :: PatternTable where
  "test_patterns =
     \<lparr> Keywords = [''badword''], Extensions = [''.exe''], Paths = [''/evil''],
       Hidden = [''.git''] \<rparr>"

section \<open>Construction of the classifier in main.go\<close>

text \<open>
  \<open>main\<close> builds \<open>config.urlChecker\<close> from the flags \<open>-m\<close> and \<open>-e\<close>: every category
  is on when \<open>-m\<close> is empty; otherwise the literal is rebuilt with the exclusion patterns
  only and each listed category switched on. A name that is no category ends the
  program (\<open>log.Fatalf\<close>), the value \<open>None\<close> here.
\<close>

fun main_categories :: "string list \<Rightarrow> URLChecker \<Rightarrow> URLChecker option" where
  "main_categories [] uc = Some uc"
| "main_categories (category # rest) uc =
     (let k = TrimSpace (ToLower category) in
      if k = ''keywords'' then main_categories rest (uc \<lparr> checkKeywords := True \<rparr>)
      else if k = ''extensions'' then main_categories rest (uc \<lparr> checkExtensions := True \<rparr>)
      else if k = ''paths'' then main_categories rest (uc \<lparr> checkPaths := True \<rparr>)
      else if k = ''hidden'' then main_categories rest (uc \<lparr> checkHidden := True \<rparr>)
      else None)"

definition main_urlChecker :: "string \<Rightarrow> string \<Rightarrow> URLChecker option" where
  "main_urlChecker categories excludes =
     (let excl = (if excludes \<noteq> [] then map TrimSpace (Split_comma excludes) else [])
      in if categories \<noteq> []
         then main_categories (Split_comma categories)
                (URLChecker_literal False False False False excl)
         else Some (URLChecker_literal True True True True excl))"

text \<open>The checker is shared by every call of a run: a sequence of calls of
  \<open>isSuspicious\<close> hands the checker of one call to the next.\<close>

fun isSuspicious_calls ::
  "PatternTable \<Rightarrow> URLChecker \<Rightarrow> string list \<Rightarrow> (bool \<times> string \<times> string) list" where
  "isSuspicious_calls tbl c [] = []"
| "isSuspicious_calls tbl c (rawURL # rest) =
     (case isSuspicious tbl c rawURL of (r, c') \<Rightarrow> r # isSuspicious_calls tbl c' rest)"

section \<open>The classification the specification describes\<close>

text \<open>
  The specification's words for the matcher (its section 4.1), over the configuration
  and not over the compiled lists: a URL is excluded when an exclusion pattern occurs in
  it; a category matches when one of its patterns occurs in the URL (at its end, for an
  extension); the category reported is the first of keywords, extensions, paths, hidden
  that is enabled and matches.
\<close>

definition excluded :: "URLChecker \<Rightarrow> string \<Rightarrow> bool" where
  "excluded c rawURL = list_ex (\<lambda>p. containsFold p rawURL) (excludePatterns c)"

definition categoryOrder :: "string list" where
  "categoryOrder = [''keywords'', ''extensions'', ''paths'', ''hidden'']"

definition categoryEnabled :: "URLChecker \<Rightarrow> string \<Rightarrow> bool" where
  "categoryEnabled c cat =
     (cat = ''keywords'' \<and> checkKeywords c \<or> cat = ''extensions'' \<and> checkExtensions c \<or>
      cat = ''paths'' \<and> checkPaths c \<or> cat = ''hidden'' \<and> checkHidden c)"

definition categoryMatches :: "PatternTable \<Rightarrow> string \<Rightarrow> string \<Rightarrow> bool" where
  "categoryMatches tbl cat rawURL =
     (cat = ''keywords'' \<and> list_ex (\<lambda>p. containsFold p rawURL) (Keywords tbl) \<or>
      cat = ''extensions'' \<and> list_ex (\<lambda>p. hasPrefixFold (rev p) (rev rawURL)) (Extensions tbl) \<or>
      cat = ''paths'' \<and> list_ex (\<lambda>p. containsFold p rawURL) (Paths tbl) \<or>
      cat = ''hidden'' \<and> list_ex (\<lambda>p. containsFold p rawURL) (Hidden tbl))"

definition firstMatchingCategory :: "PatternTable \<Rightarrow> URLChecker \<Rightarrow> string \<Rightarrow> string option" where
  "firstMatchingCategory tbl c rawURL =
     find (\<lambda>cat. categoryEnabled c cat \<and> categoryMatches tbl cat rawURL) categoryOrder"

section \<open>The number of workers\<close>

definition maxWorkers :: int where
  "maxWorkers = 500"

text \<open>The helper \<open>min\<close> of main.go.\<close>

definition min_go :: "int \<Rightarrow> int \<Rightarrow> int" where
  "min_go a b = (if a < b then a else b)"

text \<open>\<open>numWorkers\<close> as \<open>processURLs\<close> computes it from \<open>config.workers\<close>,
  \<open>runtime.NumCPU()\<close> and \<open>len(urls)\<close>. The values are far from the bounds of Go's
  64-bit \<open>int\<close>, so they are integers.\<close>

definition numWorkers :: "int \<Rightarrow> int \<Rightarrow> nat \<Rightarrow> int" where
  "numWorkers numCPU workers len_urls =
     (let n1 = (if workers \<le> 0 then numCPU else workers);
          n2 = (if n1 > maxWorkers then maxWorkers else n1)
      in if int len_urls < 1000 then min_go n2 (int len_urls div 10 + 1) else n2)"

text \<open>The workers \<open>processURLs\<close> starts: none for an empty input, on which it returns
  before it computes \<open>numWorkers\<close>.\<close>

definition workersStarted :: "int \<Rightarrow> int \<Rightarrow> string list \<Rightarrow> int" where
  "workersStarted numCPU workers urls =
     (if length urls = 0 then 0 else numWorkers numCPU workers (length urls))"

section \<open>Statistics and the worker pool\<close>

text \<open>\<open>Stats\<close> without its clock fields (\<open>Duration\<close>, \<open>ProcessingRate\<close>) and its mutex;
  \<open>UpdateStats\<close> runs under the mutex, so it is one step.\<close>

record Stats =
  TotalURLs :: int
  SuspiciousURLs :: int
  InvalidURLs :: int
  ProcessedURLs :: int
  SkippedURLs :: int

definition UpdateStats :: "Stats \<Rightarrow> int \<Rightarrow> int \<Rightarrow> int \<Rightarrow> int \<Rightarrow> Stats" where
  "UpdateStats s d_suspicious d_invalid d_processed d_skipped =
     s \<lparr> SuspiciousURLs := SuspiciousURLs s + d_suspicious,
         InvalidURLs := InvalidURLs s + d_invalid,
         ProcessedURLs := ProcessedURLs s + d_processed,
         SkippedURLs := SkippedURLs s + d_skipped \<rparr>"

text \<open>The variable \<open>localStats\<close> of \<open>worker\<close>.\<close>

record localStats =
  suspicious :: int
  invalid :: int
  processed :: int
  skipped :: int

definition localStats_zero :: localStats where
  "localStats_zero = \<lparr> suspicious = 0, invalid = 0, processed = 0, skipped = 0 \<rparr>"

text \<open>
  A worker that has not returned holds its \<open>localStats\<close>. The field \<open>clean\<close> is not a
  variable of the source: it is an auxiliary counter of the URLs this worker classified
  as not suspicious (after validation, when validation is on) since its last flush, kept
  so that "valid but clean" can be counted; \<open>cleanTotal\<close> of the pipeline is the sum of
  the flushed values.
\<close>

record Worker =
  locals :: localStats
  clean :: int

datatype Event = CtxDone | Tick | Recv bool

datatype Action = Send | CloseURLs | Work nat Event

text \<open>
  The state of one \<open>processURLs\<close>: the URLs the sender goroutine has not sent yet, the
  content of \<open>urlChan\<close> and whether it is closed, the workers (\<open>None\<close> for one that has
  returned), the shared \<open>Stats\<close>, what was sent on \<open>resultsChan\<close>, and the checker the
  workers share.
\<close>

record Pipeline =
  toSend :: "string list"
  urlChan :: "string list"
  urlChanClosed :: bool
  pool :: "Worker option list"
  stats :: Stats
  resultsChan :: "Result list"
  sharedChecker :: URLChecker
  cleanTotal :: int

definition processURLs_start :: "string list \<Rightarrow> nat \<Rightarrow> URLChecker \<Rightarrow> Pipeline" where
  "processURLs_start urls n checker =
     \<lparr> toSend = urls, urlChan = [], urlChanClosed = False,
       pool = replicate n (Some \<lparr> locals = localStats_zero, clean = 0 \<rparr>),
       stats = \<lparr> TotalURLs = int (length urls), SuspiciousURLs = 0, InvalidURLs = 0,
                 ProcessedURLs = 0, SkippedURLs = 0 \<rparr>,
       resultsChan = [], sharedChecker = checker, cleanTotal = 0 \<rparr>"

text \<open>\<open>stats.UpdateStats(localStats...)\<close>, with the auxiliary counter flushed along.\<close>

definition flushStats :: "Pipeline \<Rightarrow> Worker \<Rightarrow> Pipeline" where
  "flushStats p w =
     p \<lparr> stats := UpdateStats (stats p) (suspicious (locals w)) (invalid (locals w))
                     (processed (locals w)) (skipped (locals w)),
         cleanTotal := cleanTotal p + clean w \<rparr>"

text \<open>Worker \<open>i\<close> flushes and returns.\<close>

definition worker_return :: "nat \<Rightarrow> Worker \<Rightarrow> Pipeline \<Rightarrow> Pipeline" where
  "worker_return i w p = (flushStats p w) \<lparr> pool := (pool p)[i := None] \<rparr>"

definition worker_continue :: "nat \<Rightarrow> Worker \<Rightarrow> Pipeline \<Rightarrow> Pipeline" where
  "worker_continue i w p = p \<lparr> pool := (pool p)[i := Some w] \<rparr>"

text \<open>
  The body of \<open>case rawURL, ok := <-urls\<close> once a URL is received. \<open>sendOK\<close> says which
  case of the inner \<open>select\<close> fires when the URL is suspicious: the send on \<open>results\<close>
  (true) or \<open>ctx.Done()\<close> (false).
\<close>

definition worker_url ::
  "bool \<Rightarrow> (string \<Rightarrow> bool) \<Rightarrow> PatternTable \<Rightarrow> nat \<Rightarrow> Worker \<Rightarrow> bool \<Rightarrow> string \<Rightarrow> Pipeline \<Rightarrow> Pipeline" where
  "worker_url validateURLs parseOK tbl i w sendOK rawURL p =
     (let l = locals w in
      if TrimSpace rawURL = [] then
        worker_continue i (w \<lparr> locals := l \<lparr> skipped := skipped l + 1 \<rparr> \<rparr>) p
      else if validateURLs \<and> \<not> isValidURL parseOK rawURL then
        worker_continue i
          (w \<lparr> locals := l \<lparr> invalid := invalid l + 1, processed := processed l + 1 \<rparr> \<rparr>) p
      else
        (case isSuspicious tbl (sharedChecker p) rawURL of
           ((sus, category, reason), checker') \<Rightarrow>
             (let p' = p \<lparr> sharedChecker := checker' \<rparr> in
              if sus then
                (if sendOK then
                   worker_continue i
                     (w \<lparr> locals := l \<lparr> suspicious := suspicious l + 1,
                                         processed := processed l + 1 \<rparr> \<rparr>)
                     (p' \<lparr> resultsChan := resultsChan p' @
                            [\<lparr> URL = rawURL, Category = category, Reason = reason \<rparr>] \<rparr>)
                 else worker_return i w p')
              else
                worker_continue i
                  (w \<lparr> locals := l \<lparr> processed := processed l + 1 \<rparr>, clean := clean w + 1 \<rparr>)
                  p')))"

text \<open>
  One pass of worker \<open>i\<close> through its \<open>select\<close>, for the case that fires: \<open>ctx.Done()\<close>,
  the ticker, or the receive (which waits while the channel is empty and open, returns
  when it is empty and closed, and handles the URL at its head otherwise).
\<close>

definition worker_select ::
  "bool \<Rightarrow> (string \<Rightarrow> bool) \<Rightarrow> PatternTable \<Rightarrow> nat \<Rightarrow> Event \<Rightarrow> Pipeline \<Rightarrow> Pipeline" where
  "worker_select validateURLs parseOK tbl i ev p =
     (if length (pool p) \<le> i then p
      else (case pool p ! i of
              None \<Rightarrow> p
            | Some w \<Rightarrow>
                (case ev of
                   CtxDone \<Rightarrow> worker_return i w p
                 | Tick \<Rightarrow>
                     worker_continue i \<lparr> locals = localStats_zero, clean = 0 \<rparr> (flushStats p w)
                 | Recv sendOK \<Rightarrow>
                     (case urlChan p of
                        [] \<Rightarrow> if urlChanClosed p then worker_return i w p else p
                      | rawURL # rest \<Rightarrow>
                          worker_url validateURLs parseOK tbl i w sendOK rawURL
                            (p \<lparr> urlChan := rest \<rparr>)))))"

text \<open>
  The sender goroutine sends the URLs in order while the channel is open; it closes the
  channel when it returns, at the end of the list or on \<open>ctx.Done()\<close>, and what it has
  not sent is never sent. The capacity of the channels and the batches of 100 change
  when a step can happen, not what it does, and are left out: the runs below include
  every run of the program.
\<close>

definition pipeline_step ::
  "bool \<Rightarrow> (string \<Rightarrow> bool) \<Rightarrow> PatternTable \<Rightarrow> Action \<Rightarrow> Pipeline \<Rightarrow> Pipeline" where
  "pipeline_step validateURLs parseOK tbl a p =
     (case a of
        Send \<Rightarrow>
          (case toSend p of
             [] \<Rightarrow> p
           | u # us \<Rightarrow> if urlChanClosed p then p
                       else p \<lparr> toSend := us, urlChan := urlChan p @ [u] \<rparr>)
      | CloseURLs \<Rightarrow> p \<lparr> toSend := [], urlChanClosed := True \<rparr>
      | Work i ev \<Rightarrow> worker_select validateURLs parseOK tbl i ev p)"

definition pipeline_run ::
  "bool \<Rightarrow> (string \<Rightarrow> bool) \<Rightarrow> PatternTable \<Rightarrow> Action list \<Rightarrow> Pipeline \<Rightarrow> Pipeline" where
  "pipeline_run validateURLs parseOK tbl schedule p =
     fold (pipeline_step validateURLs parseOK tbl) schedule p"

text \<open>What every state of a run satisfies.\<close>

definition worker_ok :: "Worker option \<Rightarrow> bool" where
  "worker_ok wo =
     (case wo of
        None \<Rightarrow> True
      | Some w \<Rightarrow>
          0 \<le> suspicious (locals w) \<and> 0 \<le> invalid (locals w) \<and> 0 \<le> skipped (locals w) \<and>
          0 \<le> clean w \<and>
          processed (locals w) = suspicious (locals w) + clean w + invalid (locals w))"

definition worker_count :: "Worker option \<Rightarrow> int" where
  "worker_count wo =
     (case wo of None \<Rightarrow> 0 | Some w \<Rightarrow> processed (locals w) + skipped (locals w))"

definition pipeline_inv :: "Pipeline \<Rightarrow> bool" where
  "pipeline_inv p =
     (list_all worker_ok (pool p) \<and>
      0 \<le> SuspiciousURLs (stats p) \<and> 0 \<le> InvalidURLs (stats p) \<and>
      0 \<le> SkippedURLs (stats p) \<and> 0 \<le> cleanTotal p \<and>
      ProcessedURLs (stats p) = SuspiciousURLs (stats p) + cleanTotal p + InvalidURLs (stats p) \<and>
      ProcessedURLs (stats p) + SkippedURLs (stats p) + sum_list (map worker_count (pool p)) +
        int (length (urlChan p)) + int (length (toSend p)) \<le> TotalURLs (stats p))"

text \<open>The lines \<open>processFile\<close> keeps: trimmed, and neither empty nor a comment.\<close>

definition loadURLs :: "string list \<Rightarrow> string list" where
  "loadURLs lines =
     filter (\<lambda>line. \<not> (line = [] \<or> HasPrefix line ''#'' \<or> HasPrefix line ''//''))
       (map TrimSpace lines)"

section \<open>Reading the file and delivering the results\<close>

text \<open>
  \<open>processFile\<close> and \<open>processLargeFile\<close> of main.go run in one goroutine. The file
  system, the clock and the concurrent pipeline are their environment:
  \<^item> the input file is what \<open>os.Stat\<close>, \<open>os.Open\<close> and the scanner say about it;
  \<^item> \<open>ctx\<close> gives \<open>ctx.Err()\<close> at the moment a given number of lines has been read
    (\<open>None\<close> while the context is live);
  \<^item> \<open>run\<close> stands for \<open>processURLs\<close>: for a list of URLs, the results collected, the
    statistics and the error it returns, which is \<open>ctx.Err()\<close>;
  \<^item> \<open>createOK\<close> says whether the output file can be created.
\<close>

datatype error =
    DeadlineExceeded
  | Canceled
  | AccessError
  | FileTooLarge
  | OpenError
  | ReadError
  | ProcessError error
  | CreateError

record InputFile =
  statOK :: bool
  fileSize :: nat
  openOK :: bool
  fileLines :: "string list"
  scanOK :: bool

definition maxFileSize :: nat where
  "maxFileSize = 500 * 1024 * 1024"

definition progressInterval :: nat where
  "progressInterval = 10000"

definition chunkSize :: nat where
  "chunkSize = 50000"

text \<open>What a run of the program leaves behind: the error \<open>processFile\<close> returns, the
  results written to the output, and the statistics printed.\<close>

record Outcome =
  returned :: "error option"
  sink :: "Result list"
  statsShown :: "Stats option"

definition failed :: "error \<Rightarrow> Outcome" where
  "failed e = \<lparr> returned = Some e, sink = [], statsShown = None \<rparr>"

text \<open>\<open>writeResults\<close>: nothing is written for an empty list; otherwise the output is
  created and the results are written in the order of their URLs.\<close>

definition writeResults :: "bool \<Rightarrow> string \<Rightarrow> Result list \<Rightarrow> error + Result list" where
  "writeResults createOK outputPath results =
     (if length results = 0 then Inr []
      else if outputPath \<noteq> [] \<and> \<not> createOK then Inl CreateError
      else Inr (sort_key URL results))"

text \<open>The end of both functions: deduplicate, print the statistics when verbose,
  write.\<close>

definition deliver :: "bool \<Rightarrow> bool \<Rightarrow> string \<Rightarrow> Result list \<Rightarrow> Stats \<Rightarrow> Outcome" where
  "deliver createOK verbose outputPath results sts =
     (let results = removeDuplicates results;
          shown = (if verbose then Some sts else None)
      in case writeResults createOK outputPath results of
           Inl e \<Rightarrow> \<lparr> returned = Some e, sink = [], statsShown = shown \<rparr>
         | Inr written \<Rightarrow> \<lparr> returned = None, sink = written, statsShown = shown \<rparr>)"

text \<open>The test \<open>err != nil && err != context.DeadlineExceeded\<close> on what \<open>processURLs\<close>
  returns, and the error returned when it holds (\<open>fmt.Errorf\<close> wrapping \<open>err\<close>).\<close>

definition hardError :: "error option \<Rightarrow> error option" where
  "hardError err =
     (case err of
        None \<Rightarrow> None
      | Some e \<Rightarrow> if e \<noteq> DeadlineExceeded then Some (ProcessError e) else None)"

text \<open>The loop of \<open>processFile\<close> that loads the URLs; the context is looked at after
  every line kept whose number is a multiple of \<open>progressInterval\<close>.\<close>

fun loadLoop :: "(nat \<Rightarrow> error option) \<Rightarrow> string list \<Rightarrow> nat \<Rightarrow> string list \<Rightarrow> error + string list" where
  "loadLoop ctx [] lineCount urls = Inr urls"
| "loadLoop ctx (text # rest) lineCount urls =
     (let lineCount = lineCount + 1; line = TrimSpace text in
      if line = [] \<or> HasPrefix line ''#'' \<or> HasPrefix line ''//''
      then loadLoop ctx rest lineCount urls
      else (let urls = urls @ [line] in
            if lineCount mod progressInterval = 0
            then (case ctx lineCount of
                    Some e \<Rightarrow> Inl e
                  | None \<Rightarrow> loadLoop ctx rest lineCount urls)
            else loadLoop ctx rest lineCount urls))"

text \<open>The additions \<open>processLargeFile\<close> makes to \<open>totalStats\<close> after a chunk (it leaves
  \<open>SkippedURLs\<close> alone).\<close>

definition addChunkStats :: "Stats \<Rightarrow> Stats \<Rightarrow> Stats" where
  "addChunkStats totalStats sts =
     totalStats \<lparr> TotalURLs := TotalURLs totalStats + TotalURLs sts,
                  ProcessedURLs := ProcessedURLs totalStats + ProcessedURLs sts,
                  SuspiciousURLs := SuspiciousURLs totalStats + SuspiciousURLs sts,
                  InvalidURLs := InvalidURLs totalStats + InvalidURLs sts \<rparr>"

text \<open>The scanning loop of \<open>processLargeFile\<close>, with its variables \<open>lineCount\<close>,
  \<open>chunk\<close>, \<open>allResults\<close> and \<open>totalStats\<close>.\<close>

fun processLargeFile_loop ::
  "(nat \<Rightarrow> error option) \<Rightarrow> (string list \<Rightarrow> Result list \<times> Stats \<times> error option) \<Rightarrow>
   string list \<Rightarrow> nat \<Rightarrow> string list \<Rightarrow> Result list \<Rightarrow> Stats \<Rightarrow>
   error + (string list \<times> Result list \<times> Stats)" where
  "processLargeFile_loop ctx run [] lineCount chunk allResults totalStats =
     Inr (chunk, allResults, totalStats)"
| "processLargeFile_loop ctx run (text # rest) lineCount chunk allResults totalStats =
     (let lineCount = lineCount + 1; line = TrimSpace text in
      if line = [] \<or> HasPrefix line ''#'' \<or> HasPrefix line ''//''
      then processLargeFile_loop ctx run rest lineCount chunk allResults totalStats
      else (let chunk = chunk @ [line] in
            if length chunk \<ge> chunkSize
            then (case run chunk of
                    (results, sts, err) \<Rightarrow>
                      (case hardError err of
                         Some e \<Rightarrow> Inl e
                       | None \<Rightarrow>
                           (case ctx lineCount of
                              Some e \<Rightarrow> Inl e
                            | None \<Rightarrow>
                                processLargeFile_loop ctx run rest lineCount []
                                  (allResults @ results) (addChunkStats totalStats sts))))
            else processLargeFile_loop ctx run rest lineCount chunk allResults totalStats))"

definition stats_zero :: Stats where
  "stats_zero = \<lparr> TotalURLs = 0, SuspiciousURLs = 0, InvalidURLs = 0, ProcessedURLs = 0,
                  SkippedURLs = 0 \<rparr>"

definition processLargeFile ::
  "(nat \<Rightarrow> error option) \<Rightarrow> (string list \<Rightarrow> Result list \<times> Stats \<times> error option) \<Rightarrow>
   bool \<Rightarrow> bool \<Rightarrow> string \<Rightarrow> InputFile \<Rightarrow> Outcome" where
  "processLargeFile ctx run createOK verbose outputPath file =
     (case processLargeFile_loop ctx run (fileLines file) 0 [] [] stats_zero of
        Inl e \<Rightarrow> failed e
      | Inr (chunk, allResults, totalStats) \<Rightarrow>
          (if length chunk > 0
           then (case run chunk of
                   (results, sts, err) \<Rightarrow>
                     (case hardError err of
                        Some e \<Rightarrow> failed e
                      | None \<Rightarrow>
                          if \<not> scanOK file then failed ReadError
                          else deliver createOK verbose outputPath (allResults @ results)
                                 (addChunkStats totalStats sts)))
           else if \<not> scanOK file then failed ReadError
           else deliver createOK verbose outputPath allResults totalStats))"

definition processFile ::
  "(nat \<Rightarrow> error option) \<Rightarrow> (string list \<Rightarrow> Result list \<times> Stats \<times> error option) \<Rightarrow>
   bool \<Rightarrow> bool \<Rightarrow> string \<Rightarrow> InputFile \<Rightarrow> Outcome" where
  "processFile ctx run createOK verbose outputPath file =
     (if \<not> statOK file then failed AccessError
      else if fileSize file > maxFileSize then failed FileTooLarge
      else if \<not> openOK file then failed OpenError
      else if fileSize file > 50 * 1024 * 1024
        then processLargeFile ctx run createOK verbose outputPath file
      else (case loadLoop ctx (fileLines file) 0 [] of
              Inl e \<Rightarrow> failed e
            | Inr urls \<Rightarrow>
                if \<not> scanOK file then failed ReadError
                else (case run urls of
                        (results, sts, err) \<Rightarrow>
                          (case hardError err of
                             Some e \<Rightarrow> failed e
                           | None \<Rightarrow> deliver createOK verbose outputPath results sts))))"

text \<open>\<open>main\<close> ends the program with \<open>log.Fatalf\<close>, exit status 1, on any error that
  \<open>processFile\<close> returns, and with status 0 otherwise.\<close>

definition main_exit :: "Outcome \<Rightarrow> nat" where
  "main_exit out = (case returned out of None \<Rightarrow> 0 | Some e \<Rightarrow> 1)"

text \<open>
  \<open>main\<close> of cmd/juicyurls/main.go, on what \<open>processor.ProcessFile\<close> returns: status 0
  for no error and for an error that is, or wraps, \<open>context.DeadlineExceeded\<close>
  (\<open>errors.Is\<close>), and \<open>log.Fatalf\<close>, status 1, for any other error.
\<close>

fun errors_Is_DeadlineExceeded :: "error \<Rightarrow> bool" where
  "errors_Is_DeadlineExceeded DeadlineExceeded = True"
| "errors_Is_DeadlineExceeded (ProcessError e) = errors_Is_DeadlineExceeded e"
| "errors_Is_DeadlineExceeded e = False"

definition cmd_main_exit :: "error option \<Rightarrow> nat" where
  "cmd_main_exit err =
     (case err of
        None \<Rightarrow> 0
      | Some e \<Rightarrow> if errors_Is_DeadlineExceeded e then 0 else 1)"

text \<open>
  A run that meets the deadline in its first chunk: a file of two million lines, each
  the same URL of 30 bytes (62 MB, so the file is processed in chunks); a context whose
  deadline has passed when the first chunk of \<open>chunkSize\<close> lines has been handled; and
  a \<open>processURLs\<close> that has collected one result when the deadline stops it.
\<close>

definition exampleURL :: string where
  "exampleURL = ''http://example.com/.git/config''"

definition largeFile :: InputFile where
  "largeFile = \<lparr> statOK = True, fileSize = 62000000, openOK = True,
                 fileLines = replicate 2000000 exampleURL, scanOK = True \<rparr>"

definition deadlineInFirstChunk :: "nat \<Rightarrow> error option" where
  "deadlineInFirstChunk lineCount = (if lineCount < chunkSize then None else Some DeadlineExceeded)"

definition timedOutRun :: "string list \<Rightarrow> Result list \<times> Stats \<times> error option" where
  "timedOutRun urls =
     ([\<lparr> URL = exampleURL, Category = ''hidden'', Reason = ''Hidden file or directory'' \<rparr>],
      \<lparr> TotalURLs = int (length urls), SuspiciousURLs = 1, InvalidURLs = 0, ProcessedURLs = 1,
        SkippedURLs = 0 \<rparr>,
      Some DeadlineExceeded)"

section \<open>Deduplication keeps the first occurrences\<close>

lemma removeDuplicates_loop_append:
  "removeDuplicates_loop (xs @ ys) st = removeDuplicates_loop ys (removeDuplicates_loop xs st)"
proof (induction xs arbitrary: st)
  case Nil
  show ?case by (cases st) simp
next
  case (Cons x xs)
  show ?case by (cases st) (simp add: Cons.IH)
qed

lemma firstOccurrences_snoc:
  "firstOccurrences (rs @ [r]) =
     firstOccurrences rs @ (if URL r \<in> set (map URL rs) then [] else [r])"
proof -
  have old: "[(rs @ [r]) ! i. i \<leftarrow> [0 ..< length rs],
                URL ((rs @ [r]) ! i) \<notin> set (map URL (take i (rs @ [r])))]
             = firstOccurrences rs"
    unfolding firstOccurrences_def
    by (rule arg_cong [where f = concat], rule map_cong) (auto simp: nth_append)
  show ?thesis
    using old by (simp add: firstOccurrences_def)
qed

lemma removeDuplicates_loop_inv:
  "removeDuplicates_loop rs (Map.empty, []) = (seen, unique) \<Longrightarrow>
     dom seen = set (map URL rs) \<and> unique = firstOccurrences rs"
proof (induction rs arbitrary: seen unique rule: rev_induct)
  case Nil
  then show ?case by (auto simp: firstOccurrences_def)
next
  case (snoc r rs)
  obtain seen0 unique0 where st: "removeDuplicates_loop rs (Map.empty, []) = (seen0, unique0)"
    by (cases "removeDuplicates_loop rs (Map.empty, [])") auto
  from snoc.IH [OF st] have ih: "dom seen0 = set (map URL rs)" "unique0 = firstOccurrences rs"
    by auto
  have mem: "(seen0 (URL r) = None) = (URL r \<notin> set (map URL rs))"
  proof -
    have "(seen0 (URL r) = None) = (URL r \<notin> dom seen0)"
      by (cases "seen0 (URL r)") (auto simp: domIff)
    then show ?thesis
      by (simp only: ih(1))
  qed
  from snoc.prems st have
    "(seen, unique) = removeDuplicates_loop [r] (seen0, unique0)"
    by (simp add: removeDuplicates_loop_append)
  then show ?case
    using ih mem by (auto simp: firstOccurrences_snoc split: if_splits)
qed

lemma removeDuplicates_firstOccurrences: "removeDuplicates rs = firstOccurrences rs"
proof -
  obtain seen unique where st: "removeDuplicates_loop rs (Map.empty, []) = (seen, unique)"
    by (cases "removeDuplicates_loop rs (Map.empty, [])") auto
  from removeDuplicates_loop_inv [OF st] show ?thesis
    by (simp add: removeDuplicates_def st)
qed

lemma firstOccurrences_Nil: "firstOccurrences [] = []"
  by (simp add: firstOccurrences_def)

lemma firstOccurrences_set: "set (map URL (firstOccurrences rs)) = set (map URL rs)"
proof (induction rs rule: rev_induct)
  case Nil
  show ?case by (simp add: firstOccurrences_Nil)
next
  case (snoc r rs)
  then have ih: "URL ` set (firstOccurrences rs) = URL ` set rs"
    by simp
  show ?case
    using ih by (auto simp: firstOccurrences_snoc)
qed

lemma firstOccurrences_distinct: "distinct (map URL (firstOccurrences rs))"
proof (induction rs rule: rev_induct)
  case Nil
  show ?case by (simp add: firstOccurrences_Nil)
next
  case (snoc r rs)
  have same: "URL ` set (firstOccurrences rs) = URL ` set rs"
    using firstOccurrences_set [of rs] by simp
  show ?case
    using snoc same by (auto simp: firstOccurrences_snoc)
qed

text \<open>
  C7. Deduplication by URL keeps exactly the first occurrence of each URL, in the order
  of first occurrence: on the list of the test, a, b, a, c (category k, empty reason),
  \<open>removeDuplicates\<close> returns a, b, c; on every list it returns the results whose URL no
  earlier result carries, in input order, so every URL of the input appears in the
  output, and appears there once.
\<close>

theorem removeDuplicates_first_seen:
  "removeDuplicates
     [\<lparr>URL = ''a'', Category = ''k'', Reason = []\<rparr>,
      \<lparr>URL = ''b'', Category = ''k'', Reason = []\<rparr>,
      \<lparr>URL = ''a'', Category = ''k'', Reason = []\<rparr>,
      \<lparr>URL = ''c'', Category = ''k'', Reason = []\<rparr>]
   = [\<lparr>URL = ''a'', Category = ''k'', Reason = []\<rparr>,
      \<lparr>URL = ''b'', Category = ''k'', Reason = []\<rparr>,
      \<lparr>URL = ''c'', Category = ''k'', Reason = []\<rparr>]
   \<and> removeDuplicates rs = firstOccurrences rs
   \<and> distinct (map URL (removeDuplicates rs))
   \<and> set (map URL (removeDuplicates rs)) = set (map URL rs)"
proof -
  have ex: "removeDuplicates
     [\<lparr>URL = ''a'', Category = ''k'', Reason = []\<rparr>,
      \<lparr>URL = ''b'', Category = ''k'', Reason = []\<rparr>,
      \<lparr>URL = ''a'', Category = ''k'', Reason = []\<rparr>,
      \<lparr>URL = ''c'', Category = ''k'', Reason = []\<rparr>]
   = [\<lparr>URL = ''a'', Category = ''k'', Reason = []\<rparr>,
      \<lparr>URL = ''b'', Category = ''k'', Reason = []\<rparr>,
      \<lparr>URL = ''c'', Category = ''k'', Reason = []\<rparr>]"
    by (simp add: removeDuplicates_def)
  have gen: "removeDuplicates rs = firstOccurrences rs
     \<and> distinct (map URL (removeDuplicates rs))
     \<and> set (map URL (removeDuplicates rs)) = set (map URL rs)"
    using firstOccurrences_distinct [of rs] firstOccurrences_set [of rs]
    by (simp only: removeDuplicates_firstOccurrences simp_thms)
  from ex gen show ?thesis
    by (rule conjI)
qed

section \<open>Properties of the classifier\<close>

lemma matchLoops_cases:
  "matchLoops c u = (False, [], []) \<or>
   matchLoops c u = (True, ''keywords'', ''Contains suspicious keyword'') \<or>
   matchLoops c u = (True, ''extensions'', ''Suspicious file extension'') \<or>
   matchLoops c u = (True, ''paths'', ''Suspicious path pattern'') \<or>
   matchLoops c u = (True, ''hidden'', ''Hidden file or directory'')"
  by (simp add: matchLoops_def)

lemma matchLoops_excluded:
  "anyMatch (excludeRegexes c) u \<Longrightarrow> matchLoops c u = (False, [], [])"
  by (simp add: matchLoops_def)

text \<open>
  C1. A URL that one of the compiled exclusion patterns matches is classified as not
  matched, with empty category and empty reason, by \<open>isSuspicious\<close> (main.go) and by
  \<open>IsSuspicious\<close> (internal/checker), whatever the flags of the checker and whatever
  else the URL matches.
\<close>

theorem exclusion_wins:
  "(anyMatch (excludeRegexes (compileRegexes tbl c)) rawURL \<longrightarrow>
      fst (isSuspicious tbl c rawURL) = (False, [], []))
   \<and> (anyMatch (excludeRegexes c) rawURL \<longrightarrow> IsSuspicious c rawURL = (False, [], []))"
  by (simp add: isSuspicious_def IsSuspicious_def Let_def matchLoops_excluded)

theorem exclusion_wins_witness:
  "anyMatch (excludeRegexes (compileRegexes test_patterns
       (URLChecker_literal True True True True [''safe.com'']))) ''http://safe.com/badword''
   \<and> anyMatch (keywordRegexes (compileRegexes test_patterns
       (URLChecker_literal True True True True [''safe.com'']))) ''http://safe.com/badword''
   \<and> fst (isSuspicious test_patterns (URLChecker_literal True True True True [''safe.com''])
         ''http://safe.com/badword'') = (False, [], [])
   \<and> anyMatch (excludeRegexes (NewURLChecker test_patterns [] ''safe.com''))
         ''http://safe.com/badword''
   \<and> IsSuspicious (NewURLChecker test_patterns [] ''safe.com'') ''http://safe.com/badword''
       = (False, [], [])"
proof -
  let ?c = "URLChecker_literal True True True True [''safe.com'']"
  let ?u = "''http://safe.com/badword''"
  have ex1: "anyMatch (excludeRegexes (compileRegexes test_patterns ?c)) ?u"
    by code_simp
  have kw: "anyMatch (keywordRegexes (compileRegexes test_patterns ?c)) ?u"
    by code_simp
  have ex2: "anyMatch (excludeRegexes (NewURLChecker test_patterns [] ''safe.com'')) ?u"
    by code_simp
  from exclusion_wins [of test_patterns ?c ?u] ex1
  have r1: "fst (isSuspicious test_patterns ?c ?u) = (False, [], [])"
    by blast
  from exclusion_wins [of _ "NewURLChecker test_patterns [] ''safe.com''" ?u] ex2
  have r2: "IsSuspicious (NewURLChecker test_patterns [] ''safe.com'') ?u = (False, [], [])"
    by blast
  from ex1 kw r1 ex2 r2 show ?thesis by blast
qed

lemma isSuspicious_cases:
  "fst (isSuspicious tbl c u) = (False, [], []) \<or>
   fst (isSuspicious tbl c u) = (True, ''keywords'', ''Contains suspicious keyword'') \<or>
   fst (isSuspicious tbl c u) = (True, ''extensions'', ''Suspicious file extension'') \<or>
   fst (isSuspicious tbl c u) = (True, ''paths'', ''Suspicious path pattern'') \<or>
   fst (isSuspicious tbl c u) = (True, ''hidden'', ''Hidden file or directory'')"
  using matchLoops_cases [of "compileRegexes tbl c" u]
  by (simp add: isSuspicious_def Let_def)

lemma IsSuspicious_cases:
  "IsSuspicious c u = (False, [], []) \<or>
   IsSuspicious c u = (True, ''keywords'', ''Contains suspicious keyword'') \<or>
   IsSuspicious c u = (True, ''extensions'', ''Suspicious file extension'') \<or>
   IsSuspicious c u = (True, ''paths'', ''Suspicious path pattern'') \<or>
   IsSuspicious c u = (True, ''hidden'', ''Hidden file or directory'')"
  using matchLoops_cases [of c u]
  by (simp add: IsSuspicious_def)

text \<open>
  C10. The three components of a classification agree: the flag is set exactly when the
  category is not empty, and exactly when the reason is not empty; a result that is not
  a match is (false, "", ""), as it is for the empty URL; the category of a match is one
  of keywords, extensions, paths, hidden. This holds for \<open>isSuspicious\<close> and for
  \<open>IsSuspicious\<close>, on every checker and every URL.
\<close>

theorem classification_result_shape:
  "(let r = fst (isSuspicious tbl c rawURL) in
      fst r = (fst (snd r) \<noteq> []) \<and> fst r = (snd (snd r) \<noteq> []) \<and>
      (r = (False, [], []) \<or>
       fst r \<and> fst (snd r) \<in> set [''keywords'', ''extensions'', ''paths'', ''hidden'']))
   \<and> (let r = IsSuspicious c rawURL in
      fst r = (fst (snd r) \<noteq> []) \<and> fst r = (snd (snd r) \<noteq> []) \<and>
      (r = (False, [], []) \<or>
       fst r \<and> fst (snd r) \<in> set [''keywords'', ''extensions'', ''paths'', ''hidden'']))
   \<and> fst (isSuspicious tbl c []) = (False, [], [])
   \<and> IsSuspicious c [] = (False, [], [])"
proof -
  have a: "let r = fst (isSuspicious tbl c rawURL) in
      fst r = (fst (snd r) \<noteq> []) \<and> fst r = (snd (snd r) \<noteq> []) \<and>
      (r = (False, [], []) \<or>
       fst r \<and> fst (snd r) \<in> set [''keywords'', ''extensions'', ''paths'', ''hidden''])"
    using isSuspicious_cases [of tbl c rawURL] by (elim disjE) simp_all
  have b: "let r = IsSuspicious c rawURL in
      fst r = (fst (snd r) \<noteq> []) \<and> fst r = (snd (snd r) \<noteq> []) \<and>
      (r = (False, [], []) \<or>
       fst r \<and> fst (snd r) \<in> set [''keywords'', ''extensions'', ''paths'', ''hidden''])"
    using IsSuspicious_cases [of c rawURL] by (elim disjE) simp_all
  have c: "fst (isSuspicious tbl c []) = (False, [], [])"
    by (simp add: isSuspicious_def)
  have d: "IsSuspicious c [] = (False, [], [])"
    by (simp add: IsSuspicious_def)
  from a b c d show ?thesis by (intro conjI)
qed

section \<open>Overlong URLs\<close>

lemma containsFold_append: "containsFold p s \<Longrightarrow> containsFold p (t @ s)"
  by (induction t) (auto simp: neq_Nil_conv)

lemma anyMatch_member: "r \<in> set rs \<Longrightarrow> MatchString r u \<Longrightarrow> anyMatch rs u"
  by (auto simp: anyMatch_def list_ex_iff)

lemma matchLoops_matched:
  "\<not> anyMatch (excludeRegexes c) u \<Longrightarrow>
   anyMatch (keywordRegexes c) u \<or> anyMatch (extensionRegexes c) u \<or>
   anyMatch (pathRegexes c) u \<or> anyMatch (hiddenRegexes c) u \<Longrightarrow>
   fst (matchLoops c u)"
  by (auto simp: matchLoops_def)

lemma longURL_length: "maxURLLength < length (longURL @ s)"
  by (simp add: longURL_def)

lemma isSuspicious_overlong:
  "maxURLLength < length u \<Longrightarrow> fst (isSuspicious tbl c u) = (False, [], [])"
  by (simp add: isSuspicious_def)

text \<open>
  C5 (the code of internal/checker departs from the claim). \<open>IsSuspicious\<close> has no
  length test: the URL made of the test's overlong URL followed by \<open>/.git\<close>, longer than
  \<open>maxURLLength\<close>, is reported as a match by a checker built by \<open>NewURLChecker\<close> with
  every category on, for the source's \<open>Extensions\<close> and \<open>Hidden\<close> lists and any
  \<open>Keywords\<close> and \<open>Paths\<close>. (\<open>isSuspicious\<close> of main.go rejects every overlong URL:
  \<open>isSuspicious_overlong\<close>.)
\<close>

theorem IsSuspicious_longURL:
  "maxURLLength < length (longURL @ ''/.git'')
   \<and> fst (IsSuspicious
        (NewURLChecker \<lparr> Keywords = kws, Extensions = suspicious_Extensions, Paths = pths,
                         Hidden = suspicious_Hidden \<rparr> [] [])
        (longURL @ ''/.git''))"
proof -
  let ?tbl = "\<lparr> Keywords = kws, Extensions = suspicious_Extensions, Paths = pths,
                 Hidden = suspicious_Hidden \<rparr>"
  let ?c = "NewURLChecker ?tbl [] []"
  let ?u = "longURL @ ''/.git''"
  have ne: "?u \<noteq> []"
    by (simp add: longURL_def)
  have ex: "excludeRegexes ?c = []"
    by (simp add: NewURLChecker_def compileRegexes_def URLChecker_literal_def)
  have hid: "hiddenRegexes ?c = map Lit suspicious_Hidden"
    by (simp add: NewURLChecker_def compileRegexes_def URLChecker_literal_def)
  have "''.git'' \<in> set suspicious_Hidden"
    by (simp add: suspicious_Hidden_def)
  then have mem: "Lit ''.git'' \<in> set (hiddenRegexes ?c)"
    by (simp only: hid set_map image_eqI)
  have "containsFold ''.git'' ''/.git''"
    by code_simp
  then have "MatchString (Lit ''.git'') ?u"
    by (simp only: MatchString.simps containsFold_append)
  with mem have "anyMatch (hiddenRegexes ?c) ?u"
    by (rule anyMatch_member)
  moreover have "\<not> anyMatch (excludeRegexes ?c) ?u"
    by (simp add: ex anyMatch_def)
  ultimately have "fst (matchLoops ?c ?u)"
    by (simp add: matchLoops_matched)
  then have "fst (IsSuspicious ?c ?u)"
    using ne by (simp add: IsSuspicious_def)
  with longURL_length [of "''/.git''"] show ?thesis
    by (rule_tac conjI)
qed

lemma isValidURL_overlong: "maxURLLength < length u \<Longrightarrow> \<not> isValidURL parseOK u"
  by (simp add: isValidURL_def)

lemma isValidURL_test_cases:
  "isValidURL parseOK ''http://example.com'' = parseOK ''http://example.com''"
  "isValidURL parseOK ''no-scheme.com'' = parseOK ''no-scheme.com''"
  "\<not> isValidURL parseOK ''justtext''"
  "\<not> isValidURL parseOK []"
  "\<not> isValidURL parseOK longURL"
  by (simp_all add: isValidURL_def maxURLLength_def longURL_def)

lemma IsValidURL_test_cases:
  "IsValidURL parseOK ''http://example.com'' = parseOK ''http://example.com''"
  "IsValidURL parseOK ''no-scheme.com'' = parseOK ''no-scheme.com''"
  "\<not> IsValidURL parseOK ''justtext''"
  "\<not> IsValidURL parseOK []"
  by (simp_all add: IsValidURL_def)

text \<open>
  C4 (the code of internal/checker departs from the claim). \<open>IsValidURL\<close> has no
  length test: on the overlong URL of the test, which is longer than \<open>maxURLLength\<close>,
  it returns what \<open>url.Parse\<close> says, and \<open>url.Parse\<close> accepts that URL.
  (\<open>isValidURL\<close> of main.go gives the five verdicts of the claim:
  \<open>isValidURL_test_cases\<close>, \<open>isValidURL_overlong\<close>.)
\<close>

theorem IsValidURL_longURL:
  "maxURLLength < length longURL \<and> IsValidURL parseOK longURL = parseOK longURL"
  by (simp add: IsValidURL_def longURL_def)

section \<open>The compiled lists and the configuration\<close>

lemma compileRegexes_literal:
  "compileRegexes tbl (URLChecker_literal kw ex pa hi excl) =
     \<lparr> checkKeywords = kw, checkExtensions = ex, checkPaths = pa, checkHidden = hi,
       excludePatterns = excl, excludeRegexes = map Lit excl,
       keywordRegexes = (if kw then map Lit (Keywords tbl) else []),
       extensionRegexes = (if ex then map LitEnd (Extensions tbl) else []),
       pathRegexes = (if pa then map Lit (Paths tbl) else []),
       hiddenRegexes = (if hi then map Lit (Hidden tbl) else []),
       compiledOnce = True \<rparr>"
  by (simp add: compileRegexes_def URLChecker_literal_def)

lemma compileRegexes_idem: "compileRegexes tbl (compileRegexes tbl c) = compileRegexes tbl c"
  by (simp add: compileRegexes_def)

lemma compileRegexes_flags:
  "checkKeywords (compileRegexes tbl c) = checkKeywords c"
  "checkExtensions (compileRegexes tbl c) = checkExtensions c"
  "checkPaths (compileRegexes tbl c) = checkPaths c"
  "checkHidden (compileRegexes tbl c) = checkHidden c"
  "excludePatterns (compileRegexes tbl c) = excludePatterns c"
  by (simp_all add: compileRegexes_def)

lemma categoryEnabled_compile:
  "categoryEnabled (compileRegexes tbl c) cat = categoryEnabled c cat"
  by (simp add: categoryEnabled_def compileRegexes_flags)

lemma excluded_compile: "excluded (compileRegexes tbl c) u = excluded c u"
  by (simp add: excluded_def compileRegexes_flags)

lemma anyMatch_Lit: "anyMatch (map Lit ps) u = list_ex (\<lambda>p. containsFold p u) ps"
  by (simp add: anyMatch_def list_ex_iff)

lemma anyMatch_LitEnd:
  "anyMatch (map LitEnd ps) u = list_ex (\<lambda>p. hasPrefixFold (rev p) (rev u)) ps"
  by (simp add: anyMatch_def list_ex_iff)

lemma anyMatch_Nil: "anyMatch [] u = False"
  by (simp add: anyMatch_def)

lemma compiledFrom_literal: "compiledFrom tbl (compileRegexes tbl (URLChecker_literal kw ex pa hi excl))"
  by (simp add: compiledFrom_def compileRegexes_literal)

lemma fold_enableCategory_fresh:
  "excludeRegexes c = [] \<and> keywordRegexes c = [] \<and> extensionRegexes c = [] \<and>
   pathRegexes c = [] \<and> hiddenRegexes c = [] \<and> \<not> compiledOnce c \<Longrightarrow>
   (let c' = fold enableCategory cats c in
    excludeRegexes c' = [] \<and> keywordRegexes c' = [] \<and> extensionRegexes c' = [] \<and>
    pathRegexes c' = [] \<and> hiddenRegexes c' = [] \<and> \<not> compiledOnce c')"
proof (induction cats arbitrary: c)
  case Nil
  then show ?case by simp
next
  case (Cons a cats)
  have "excludeRegexes (enableCategory a c) = [] \<and> keywordRegexes (enableCategory a c) = [] \<and>
     extensionRegexes (enableCategory a c) = [] \<and> pathRegexes (enableCategory a c) = [] \<and>
     hiddenRegexes (enableCategory a c) = [] \<and> \<not> compiledOnce (enableCategory a c)"
    using Cons.prems by (simp add: enableCategory_def Let_def)
  from Cons.IH [OF this] show ?case by simp
qed

lemma compiledFrom_fresh:
  "excludeRegexes c = [] \<and> keywordRegexes c = [] \<and> extensionRegexes c = [] \<and>
   pathRegexes c = [] \<and> hiddenRegexes c = [] \<and> \<not> compiledOnce c \<Longrightarrow>
   compiledFrom tbl (compileRegexes tbl c)"
  by (simp add: compiledFrom_def compileRegexes_def)

lemma compiledFrom_NewURLChecker: "compiledFrom tbl (NewURLChecker tbl categories excludes)"
proof -
  let ?excl = "if excludes \<noteq> [] then map TrimSpace (Split_comma excludes) else []"
  let ?uc = "URLChecker_literal False False False False ?excl"
  have fresh: "excludeRegexes ?uc = [] \<and> keywordRegexes ?uc = [] \<and> extensionRegexes ?uc = [] \<and>
     pathRegexes ?uc = [] \<and> hiddenRegexes ?uc = [] \<and> \<not> compiledOnce ?uc"
    by (simp add: URLChecker_literal_def)
  show ?thesis
  proof (cases "categories = []")
    case True
    then show ?thesis
      using fresh by (simp add: NewURLChecker_def Let_def compiledFrom_fresh)
  next
    case False
    from fold_enableCategory_fresh [OF fresh, of "Split_comma categories"]
    have "compiledFrom tbl (compileRegexes tbl (fold enableCategory (Split_comma categories) ?uc))"
      by (simp add: Let_def compiledFrom_fresh)
    with False show ?thesis
      by (simp add: NewURLChecker_def Let_def)
  qed
qed

lemma matchLoops_compiledFrom:
  "compiledFrom tbl c \<Longrightarrow>
   matchLoops c u =
     (if excluded c u then (False, [], [])
      else if checkKeywords c \<and> categoryMatches tbl ''keywords'' u
        then (True, ''keywords'', ''Contains suspicious keyword'')
      else if checkExtensions c \<and> categoryMatches tbl ''extensions'' u
        then (True, ''extensions'', ''Suspicious file extension'')
      else if checkPaths c \<and> categoryMatches tbl ''paths'' u
        then (True, ''paths'', ''Suspicious path pattern'')
      else if checkHidden c \<and> categoryMatches tbl ''hidden'' u
        then (True, ''hidden'', ''Hidden file or directory'')
      else (False, [], []))"
  by (simp add: compiledFrom_def matchLoops_def excluded_def categoryMatches_def
        anyMatch_Lit anyMatch_LitEnd anyMatch_Nil)

lemma firstMatchingCategory_unfold:
  "firstMatchingCategory tbl c u =
     (if checkKeywords c \<and> categoryMatches tbl ''keywords'' u then Some ''keywords''
      else if checkExtensions c \<and> categoryMatches tbl ''extensions'' u then Some ''extensions''
      else if checkPaths c \<and> categoryMatches tbl ''paths'' u then Some ''paths''
      else if checkHidden c \<and> categoryMatches tbl ''hidden'' u then Some ''hidden''
      else None)"
  by (simp add: firstMatchingCategory_def categoryOrder_def categoryEnabled_def)

lemma matchLoops_spec:
  "compiledFrom tbl c \<Longrightarrow> \<not> excluded c u \<Longrightarrow>
   fst (matchLoops c u) = (firstMatchingCategory tbl c u \<noteq> None) \<and>
   fst (snd (matchLoops c u)) = (case firstMatchingCategory tbl c u of None \<Rightarrow> [] | Some cat \<Rightarrow> cat)"
  by (simp add: matchLoops_compiledFrom firstMatchingCategory_unfold)

lemma matchLoops_enabled:
  "compiledFrom tbl c \<Longrightarrow>
   fst (snd (matchLoops c u)) = [] \<or> categoryEnabled c (fst (snd (matchLoops c u)))"
  by (simp add: matchLoops_compiledFrom categoryEnabled_def)

section \<open>Disabled categories\<close>

lemma isSuspicious_literal_state:
  "c = URLChecker_literal kw ex pa hi excl \<or> c = compileRegexes tbl (URLChecker_literal kw ex pa hi excl) \<Longrightarrow>
   compileRegexes tbl c = compileRegexes tbl (URLChecker_literal kw ex pa hi excl)"
  by (auto simp: compileRegexes_idem)

lemma isSuspicious_literal_next:
  "c = URLChecker_literal kw ex pa hi excl \<or> c = compileRegexes tbl (URLChecker_literal kw ex pa hi excl) \<Longrightarrow>
   snd (isSuspicious tbl c u) = URLChecker_literal kw ex pa hi excl \<or>
   snd (isSuspicious tbl c u) = compileRegexes tbl (URLChecker_literal kw ex pa hi excl)"
  by (auto simp: isSuspicious_def Let_def compileRegexes_idem)

lemma isSuspicious_literal_enabled:
  assumes "c = URLChecker_literal kw ex pa hi excl \<or>
           c = compileRegexes tbl (URLChecker_literal kw ex pa hi excl)"
  shows "fst (snd (fst (isSuspicious tbl c u))) = [] \<or>
         categoryEnabled (URLChecker_literal kw ex pa hi excl) (fst (snd (fst (isSuspicious tbl c u))))"
proof -
  let ?l = "URLChecker_literal kw ex pa hi excl"
  have cc: "compileRegexes tbl c = compileRegexes tbl ?l"
    using assms by (rule isSuspicious_literal_state)
  have "fst (snd (matchLoops (compileRegexes tbl ?l) u)) = [] \<or>
        categoryEnabled (compileRegexes tbl ?l) (fst (snd (matchLoops (compileRegexes tbl ?l) u)))"
    by (rule matchLoops_enabled [OF compiledFrom_literal])
  then show ?thesis
    by (simp add: isSuspicious_def Let_def cc categoryEnabled_compile)
qed

lemma isSuspicious_calls_enabled:
  "c = URLChecker_literal kw ex pa hi excl \<or> c = compileRegexes tbl (URLChecker_literal kw ex pa hi excl) \<Longrightarrow>
   r \<in> set (isSuspicious_calls tbl c urls) \<Longrightarrow>
   fst (snd r) = [] \<or> categoryEnabled (URLChecker_literal kw ex pa hi excl) (fst (snd r))"
proof (induction urls arbitrary: c)
  case Nil
  then show ?case by simp
next
  case (Cons u urls)
  obtain r0 c' where call: "isSuspicious tbl c u = (r0, c')"
    by (cases "isSuspicious tbl c u") auto
  from isSuspicious_literal_next [OF Cons.prems(1), of u] call
  have st: "c' = URLChecker_literal kw ex pa hi excl \<or>
            c' = compileRegexes tbl (URLChecker_literal kw ex pa hi excl)"
    by simp
  from isSuspicious_literal_enabled [OF Cons.prems(1), of u] call
  have r0: "fst (snd r0) = [] \<or> categoryEnabled (URLChecker_literal kw ex pa hi excl) (fst (snd r0))"
    by simp
  from Cons.prems(2) call have "r = r0 \<or> r \<in> set (isSuspicious_calls tbl c' urls)"
    by simp
  then show ?case
    using r0 Cons.IH [OF st] by blast
qed

text \<open>
  C6. A category that is off when the classifier is built labels no result. For a
  checker built as a struct literal (main.go, the tests), every result of a sequence of
  calls of \<open>isSuspicious\<close> that share the checker has an empty category or a category
  whose flag is on; for a checker built by \<open>NewURLChecker\<close>, every result of
  \<open>IsSuspicious\<close> has an empty category or a category whose flag is on.
\<close>

theorem disabled_category_never_reported:
  "(\<forall>r \<in> set (isSuspicious_calls tbl (URLChecker_literal kw ex pa hi excl) urls).
      fst (snd r) = [] \<or> categoryEnabled (URLChecker_literal kw ex pa hi excl) (fst (snd r)))
   \<and> (fst (snd (IsSuspicious (NewURLChecker tbl categories excludes) rawURL)) = [] \<or>
      categoryEnabled (NewURLChecker tbl categories excludes)
        (fst (snd (IsSuspicious (NewURLChecker tbl categories excludes) rawURL))))"
proof -
  have a: "\<forall>r \<in> set (isSuspicious_calls tbl (URLChecker_literal kw ex pa hi excl) urls).
      fst (snd r) = [] \<or> categoryEnabled (URLChecker_literal kw ex pa hi excl) (fst (snd r))"
    using isSuspicious_calls_enabled [of "URLChecker_literal kw ex pa hi excl" kw ex pa hi excl tbl]
    by blast
  have b: "fst (snd (IsSuspicious (NewURLChecker tbl categories excludes) rawURL)) = [] \<or>
      categoryEnabled (NewURLChecker tbl categories excludes)
        (fst (snd (IsSuspicious (NewURLChecker tbl categories excludes) rawURL)))"
    using matchLoops_enabled [OF compiledFrom_NewURLChecker, of tbl categories excludes rawURL]
    by (simp add: IsSuspicious_def)
  from a b show ?thesis by (rule conjI)
qed

theorem disabled_category_never_reported_witness:
  "isSuspicious_calls test_patterns (URLChecker_literal False True True False [])
     [''http://clean.com'', ''http://bad.com/evil'', ''http://example.com/badword'',
      ''http://bad.com/evil.exe'', ''https://example.com/.git/config'']
   = [(False, [], []), (True, ''paths'', ''Suspicious path pattern''), (False, [], []),
      (True, ''extensions'', ''Suspicious file extension''), (False, [], [])]
   \<and> categoryEnabled (URLChecker_literal False True True False []) ''paths''
   \<and> \<not> categoryEnabled (URLChecker_literal False True True False []) ''keywords''
   \<and> \<not> categoryEnabled (URLChecker_literal False True True False []) ''hidden''
   \<and> IsSuspicious (NewURLChecker test_patterns ''Extensions, paths'' []) ''http://example.com/badword''
       = (False, [], [])
   \<and> IsSuspicious (NewURLChecker test_patterns ''Extensions, paths'' []) ''http://bad.com/evil''
       = (True, ''paths'', ''Suspicious path pattern'')
   \<and> categoryEnabled (NewURLChecker test_patterns ''Extensions, paths'' []) ''paths''"
proof -
  let ?c = "URLChecker_literal False True True False []"
  let ?urls = "[''http://clean.com'', ''http://bad.com/evil'', ''http://example.com/badword'',
      ''http://bad.com/evil.exe'', ''https://example.com/.git/config'']"
  have calls: "isSuspicious_calls test_patterns ?c ?urls
     = [(False, [], []), (True, ''paths'', ''Suspicious path pattern''), (False, [], []),
      (True, ''extensions'', ''Suspicious file extension''), (False, [], [])]"
    by code_simp
  then have mem: "(True, ''paths'', ''Suspicious path pattern'') \<in> set (isSuspicious_calls test_patterns ?c ?urls)"
    by simp
  have inst: "(\<forall>r \<in> set (isSuspicious_calls test_patterns ?c ?urls).
      fst (snd r) = [] \<or> categoryEnabled ?c (fst (snd r)))
   \<and> (fst (snd (IsSuspicious (NewURLChecker test_patterns ''Extensions, paths'' []) ''http://bad.com/evil'')) = [] \<or>
      categoryEnabled (NewURLChecker test_patterns ''Extensions, paths'' [])
        (fst (snd (IsSuspicious (NewURLChecker test_patterns ''Extensions, paths'' []) ''http://bad.com/evil''))))"
    by (rule disabled_category_never_reported)
  from inst mem have en: "categoryEnabled ?c ''paths''"
    by fastforce
  have nk: "\<not> categoryEnabled ?c ''keywords''" "\<not> categoryEnabled ?c ''hidden''"
    by code_simp+
  have i1: "IsSuspicious (NewURLChecker test_patterns ''Extensions, paths'' []) ''http://example.com/badword''
       = (False, [], [])"
    by code_simp
  have i2: "IsSuspicious (NewURLChecker test_patterns ''Extensions, paths'' []) ''http://bad.com/evil''
       = (True, ''paths'', ''Suspicious path pattern'')"
    by code_simp
  from inst i2 have en2: "categoryEnabled (NewURLChecker test_patterns ''Extensions, paths'' []) ''paths''"
    by simp
  from calls en nk i1 i2 en2 show ?thesis by (intro conjI)
qed

section \<open>The order of the categories\<close>

text \<open>
  C2, as amended. For a URL that passes the entry test (not empty, at most
  \<open>maxURLLength\<close> bytes) and that no exclusion pattern matches, the classification is a
  match exactly when some enabled category matches, and its category is the first of
  keywords, extensions, paths, hidden that is enabled and matches; so a URL that matches
  an enabled keyword is reported as "keywords", whatever later category it matches too.
  This holds for \<open>isSuspicious\<close> on a checker built as a struct literal, before and after
  its patterns are compiled, and for \<open>IsSuspicious\<close> on a checker built by
  \<open>NewURLChecker\<close>.
\<close>

theorem first_enabled_category_reported:
  assumes "rawURL \<noteq> []" and "length rawURL \<le> maxURLLength"
  shows
  "((c = URLChecker_literal kw ex pa hi excl \<or>
     c = compileRegexes tbl (URLChecker_literal kw ex pa hi excl)) \<and> \<not> excluded c rawURL \<longrightarrow>
      fst (fst (isSuspicious tbl c rawURL)) = (firstMatchingCategory tbl c rawURL \<noteq> None) \<and>
      fst (snd (fst (isSuspicious tbl c rawURL))) =
        (case firstMatchingCategory tbl c rawURL of None \<Rightarrow> [] | Some cat \<Rightarrow> cat) \<and>
      (categoryEnabled c ''keywords'' \<and> categoryMatches tbl ''keywords'' rawURL \<longrightarrow>
         fst (snd (fst (isSuspicious tbl c rawURL))) = ''keywords''))
   \<and> (c' = NewURLChecker tbl categories excludes \<and> \<not> excluded c' rawURL \<longrightarrow>
      fst (IsSuspicious c' rawURL) = (firstMatchingCategory tbl c' rawURL \<noteq> None) \<and>
      fst (snd (IsSuspicious c' rawURL)) =
        (case firstMatchingCategory tbl c' rawURL of None \<Rightarrow> [] | Some cat \<Rightarrow> cat) \<and>
      (categoryEnabled c' ''keywords'' \<and> categoryMatches tbl ''keywords'' rawURL \<longrightarrow>
         fst (snd (IsSuspicious c' rawURL)) = ''keywords''))"
proof (intro conjI impI)
  assume h: "(c = URLChecker_literal kw ex pa hi excl \<or>
     c = compileRegexes tbl (URLChecker_literal kw ex pa hi excl)) \<and> \<not> excluded c rawURL"
  let ?l = "URLChecker_literal kw ex pa hi excl"
  from h have "c = ?l \<or> c = compileRegexes tbl ?l"
    by (rule conjunct1)
  then have cc: "compileRegexes tbl c = compileRegexes tbl ?l"
    by (rule isSuspicious_literal_state)
  have cf: "compiledFrom tbl (compileRegexes tbl c)"
    by (simp only: cc compiledFrom_literal)
  have ne: "\<not> excluded (compileRegexes tbl c) rawURL"
    using h by (simp add: excluded_compile)
  have fm: "firstMatchingCategory tbl (compileRegexes tbl c) rawURL = firstMatchingCategory tbl c rawURL"
    by (simp add: firstMatchingCategory_def categoryEnabled_compile)
  have res: "fst (isSuspicious tbl c rawURL) = matchLoops (compileRegexes tbl c) rawURL"
    using assms by (simp add: isSuspicious_def Let_def)
  from matchLoops_spec [OF cf ne]
  show m: "fst (fst (isSuspicious tbl c rawURL)) = (firstMatchingCategory tbl c rawURL \<noteq> None)"
    and k: "fst (snd (fst (isSuspicious tbl c rawURL))) =
        (case firstMatchingCategory tbl c rawURL of None \<Rightarrow> [] | Some cat \<Rightarrow> cat)"
    by (simp_all only: res fm)
  assume "categoryEnabled c ''keywords'' \<and> categoryMatches tbl ''keywords'' rawURL"
  then have "firstMatchingCategory tbl c rawURL = Some ''keywords''"
    by (simp add: firstMatchingCategory_def categoryOrder_def)
  with k show "fst (snd (fst (isSuspicious tbl c rawURL))) = ''keywords''"
    by simp
next
  assume h: "c' = NewURLChecker tbl categories excludes \<and> \<not> excluded c' rawURL"
  then have cf: "compiledFrom tbl c'"
    by (simp add: compiledFrom_NewURLChecker)
  from h have ne: "\<not> excluded c' rawURL"
    by (rule conjunct2)
  have res: "IsSuspicious c' rawURL = matchLoops c' rawURL"
    using assms by (simp add: IsSuspicious_def)
  from matchLoops_spec [OF cf ne]
  show m: "fst (IsSuspicious c' rawURL) = (firstMatchingCategory tbl c' rawURL \<noteq> None)"
    and k: "fst (snd (IsSuspicious c' rawURL)) =
        (case firstMatchingCategory tbl c' rawURL of None \<Rightarrow> [] | Some cat \<Rightarrow> cat)"
    by (simp_all only: res)
  assume "categoryEnabled c' ''keywords'' \<and> categoryMatches tbl ''keywords'' rawURL"
  then have "firstMatchingCategory tbl c' rawURL = Some ''keywords''"
    by (simp add: firstMatchingCategory_def categoryOrder_def)
  with k show "fst (snd (IsSuspicious c' rawURL)) = ''keywords''"
    by simp
qed

theorem first_enabled_category_reported_witness:
  "''http://example.com/badword.exe'' \<noteq> []
   \<and> length ''http://example.com/badword.exe'' \<le> maxURLLength
   \<and> \<not> excluded (URLChecker_literal True True True True [''safe.com''])
         ''http://example.com/badword.exe''
   \<and> categoryEnabled (URLChecker_literal True True True True [''safe.com'']) ''keywords''
   \<and> categoryMatches test_patterns ''keywords'' ''http://example.com/badword.exe''
   \<and> categoryMatches test_patterns ''extensions'' ''http://example.com/badword.exe''
   \<and> fst (snd (fst (isSuspicious test_patterns
         (URLChecker_literal True True True True [''safe.com''])
         ''http://example.com/badword.exe''))) = ''keywords''
   \<and> \<not> excluded (NewURLChecker test_patterns [] ''safe.com'') ''http://example.com/badword.exe''
   \<and> categoryEnabled (NewURLChecker test_patterns [] ''safe.com'') ''keywords''
   \<and> fst (snd (IsSuspicious (NewURLChecker test_patterns [] ''safe.com'')
         ''http://example.com/badword.exe'')) = ''keywords''"
proof -
  let ?u = "''http://example.com/badword.exe''"
  let ?c = "URLChecker_literal True True True True [''safe.com'']"
  let ?c' = "NewURLChecker test_patterns [] ''safe.com''"
  have ne: "?u \<noteq> []" by simp
  have len: "length ?u \<le> maxURLLength" by (simp add: maxURLLength_def)
  have nx: "\<not> excluded ?c ?u" by code_simp
  have en: "categoryEnabled ?c ''keywords''" by code_simp
  have mk: "categoryMatches test_patterns ''keywords'' ?u" by code_simp
  have me: "categoryMatches test_patterns ''extensions'' ?u" by code_simp
  have nx': "\<not> excluded ?c' ?u" by code_simp
  have en': "categoryEnabled ?c' ''keywords''" by code_simp
  note inst = first_enabled_category_reported [OF ne len, of ?c True True True True "[''safe.com'']"
      test_patterns ?c' "[]" "''safe.com''"]
  from inst nx en mk have r: "fst (snd (fst (isSuspicious test_patterns ?c ?u))) = ''keywords''"
    by blast
  from inst nx' en' mk have r': "fst (snd (IsSuspicious ?c' ?u)) = ''keywords''"
    by blast
  from ne len nx en mk me r nx' en' r' show ?thesis
    by (intro conjI)
qed

text \<open>
  The claim C2 as stated, for every URL that no exclusion pattern matches, fails on
  \<open>isSuspicious\<close>: the overlong URL of the test followed by \<open>/badword\<close> matches the
  enabled keyword pattern and no exclusion pattern, and is classified as not matched.
\<close>

theorem first_category_overlong_counterexample:
  "\<not> excluded (URLChecker_literal True True True True []) (longURL @ ''/badword'')
   \<and> categoryEnabled (URLChecker_literal True True True True []) ''keywords''
   \<and> categoryMatches test_patterns ''keywords'' (longURL @ ''/badword'')
   \<and> fst (isSuspicious test_patterns (URLChecker_literal True True True True [])
        (longURL @ ''/badword'')) = (False, [], [])"
proof -
  have a: "\<not> excluded (URLChecker_literal True True True True []) (longURL @ ''/badword'')"
    by (simp add: excluded_def URLChecker_literal_def)
  have b: "categoryEnabled (URLChecker_literal True True True True []) ''keywords''"
    by (simp add: categoryEnabled_def URLChecker_literal_def)
  have "containsFold ''badword'' ''/badword''"
    by code_simp
  then have "containsFold ''badword'' (longURL @ ''/badword'')"
    by (rule containsFold_append)
  then have c: "categoryMatches test_patterns ''keywords'' (longURL @ ''/badword'')"
    by (simp add: categoryMatches_def test_patterns_def)
  have d: "fst (isSuspicious test_patterns (URLChecker_literal True True True True [])
        (longURL @ ''/badword'')) = (False, [], [])"
    by (rule isSuspicious_overlong) (rule longURL_length)
  from a b c d show ?thesis by (intro conjI)
qed

section \<open>The number of workers on a small input\<close>

text \<open>
  C9. On an input of fewer than 1000 URLs, whatever the configured worker count and
  the number of CPUs, \<open>processURLs\<close> computes a worker count of at most
  \<open>len(urls)/10 + 1\<close>, and starts at most that many workers.
\<close>

theorem small_input_worker_bound:
  "length urls < 1000 \<Longrightarrow>
   numWorkers numCPU workers (length urls) \<le> int (length urls) div 10 + 1 \<and>
   workersStarted numCPU workers urls \<le> int (length urls) div 10 + 1"
  by (simp add: workersStarted_def numWorkers_def min_go_def Let_def)

theorem small_input_worker_bound_witness:
  "length (replicate 25 ''http://example.com'') < 1000
   \<and> workersStarted 8 100 (replicate 25 ''http://example.com'') = 3
   \<and> workersStarted 8 100 (replicate 25 ''http://example.com'')
       \<le> int (length (replicate 25 ''http://example.com'')) div 10 + 1"
proof -
  have h: "length (replicate 25 ''http://example.com'') < 1000" by simp
  have v: "workersStarted 8 100 (replicate 25 ''http://example.com'') = 3"
    by (simp add: workersStarted_def numWorkers_def min_go_def maxWorkers_def)
  from small_input_worker_bound [OF h, of 8 100] h v show ?thesis
    by simp
qed

section \<open>The flags a configuration sets\<close>

lemma fold_enableCategory_flags:
  "checkKeywords (fold enableCategory cats c) =
     (checkKeywords c \<or> ''keywords'' \<in> set (map (\<lambda>x. TrimSpace (ToLower x)) cats))"
  "checkExtensions (fold enableCategory cats c) =
     (checkExtensions c \<or> ''extensions'' \<in> set (map (\<lambda>x. TrimSpace (ToLower x)) cats))"
  "checkPaths (fold enableCategory cats c) =
     (checkPaths c \<or> ''paths'' \<in> set (map (\<lambda>x. TrimSpace (ToLower x)) cats))"
  "checkHidden (fold enableCategory cats c) =
     (checkHidden c \<or> ''hidden'' \<in> set (map (\<lambda>x. TrimSpace (ToLower x)) cats))"
  by (induction cats arbitrary: c; auto simp: enableCategory_def Let_def)+

lemma NewURLChecker_flags:
  "checkKeywords (NewURLChecker tbl categories excludes) =
     (categories = [] \<or> ''keywords'' \<in> set (listedCategories categories))"
  "checkExtensions (NewURLChecker tbl categories excludes) =
     (categories = [] \<or> ''extensions'' \<in> set (listedCategories categories))"
  "checkPaths (NewURLChecker tbl categories excludes) =
     (categories = [] \<or> ''paths'' \<in> set (listedCategories categories))"
  "checkHidden (NewURLChecker tbl categories excludes) =
     (categories = [] \<or> ''hidden'' \<in> set (listedCategories categories))"
  by (simp_all add: NewURLChecker_def Let_def compileRegexes_flags fold_enableCategory_flags
        listedCategories_def URLChecker_literal_def)

lemma main_categories_literal:
  "main_categories cats (URLChecker_literal kw ex pa hi excl) = Some c \<Longrightarrow>
   c = URLChecker_literal
         (kw \<or> ''keywords'' \<in> set (map (\<lambda>x. TrimSpace (ToLower x)) cats))
         (ex \<or> ''extensions'' \<in> set (map (\<lambda>x. TrimSpace (ToLower x)) cats))
         (pa \<or> ''paths'' \<in> set (map (\<lambda>x. TrimSpace (ToLower x)) cats))
         (hi \<or> ''hidden'' \<in> set (map (\<lambda>x. TrimSpace (ToLower x)) cats)) excl"
proof (induction cats arbitrary: kw ex pa hi)
  case Nil
  then show ?case by simp
next
  case (Cons a cats)
  let ?k = "TrimSpace (ToLower a)"
  have upd:
    "URLChecker_literal kw ex pa hi excl \<lparr> checkKeywords := True \<rparr> = URLChecker_literal True ex pa hi excl"
    "URLChecker_literal kw ex pa hi excl \<lparr> checkExtensions := True \<rparr> = URLChecker_literal kw True pa hi excl"
    "URLChecker_literal kw ex pa hi excl \<lparr> checkPaths := True \<rparr> = URLChecker_literal kw ex True hi excl"
    "URLChecker_literal kw ex pa hi excl \<lparr> checkHidden := True \<rparr> = URLChecker_literal kw ex pa True excl"
    by (simp_all add: URLChecker_literal_def)
  consider "?k = ''keywords''" | "?k = ''extensions''" | "?k = ''paths''" | "?k = ''hidden''"
    | "?k \<noteq> ''keywords'' \<and> ?k \<noteq> ''extensions'' \<and> ?k \<noteq> ''paths'' \<and> ?k \<noteq> ''hidden''"
    by blast
  then show ?case
  proof cases
    case 1
    with Cons.prems have "main_categories cats (URLChecker_literal True ex pa hi excl) = Some c"
      by (simp add: upd)
    from Cons.IH [OF this] 1 show ?thesis by simp
  next
    case 2
    with Cons.prems have "main_categories cats (URLChecker_literal kw True pa hi excl) = Some c"
      by (simp add: upd)
    from Cons.IH [OF this] 2 show ?thesis by simp
  next
    case 3
    with Cons.prems have "main_categories cats (URLChecker_literal kw ex True hi excl) = Some c"
      by (simp add: upd)
    from Cons.IH [OF this] 3 show ?thesis by simp
  next
    case 4
    with Cons.prems have "main_categories cats (URLChecker_literal kw ex pa True excl) = Some c"
      by (simp add: upd)
    from Cons.IH [OF this] 4 show ?thesis by simp
  next
    case 5
    with Cons.prems show ?thesis by simp
  qed
qed

lemma main_urlChecker_literal:
  "main_urlChecker categories excludes = Some c \<Longrightarrow>
   c = URLChecker_literal
         (categories = [] \<or> ''keywords'' \<in> set (listedCategories categories))
         (categories = [] \<or> ''extensions'' \<in> set (listedCategories categories))
         (categories = [] \<or> ''paths'' \<in> set (listedCategories categories))
         (categories = [] \<or> ''hidden'' \<in> set (listedCategories categories))
         (if excludes \<noteq> [] then map TrimSpace (Split_comma excludes) else [])"
proof (cases "categories = []")
  case True
  assume "main_urlChecker categories excludes = Some c"
  with True show ?thesis
    by (simp add: main_urlChecker_def Let_def)
next
  case False
  assume "main_urlChecker categories excludes = Some c"
  with False have "main_categories (Split_comma categories)
       (URLChecker_literal False False False False
          (if excludes \<noteq> [] then map TrimSpace (Split_comma excludes) else [])) = Some c"
    by (simp add: main_urlChecker_def Let_def)
  from main_categories_literal [OF this] False show ?thesis
    by (simp add: listedCategories_def)
qed

section \<open>The statistics of a run\<close>

lemma sum_list_map_update:
  fixes f :: "'a \<Rightarrow> int"
  shows "i < length xs \<Longrightarrow>
    sum_list (map f (xs[i := y])) = sum_list (map f xs) - f (xs ! i) + f y"
proof (induction xs arbitrary: i)
  case Nil
  then show ?case by simp
next
  case (Cons x xs)
  then show ?case by (cases i) auto
qed

lemma list_all_update: "list_all P xs \<Longrightarrow> P y \<Longrightarrow> list_all P (xs[i := y])"
  by (auto simp: list_all_iff dest: set_update_subset_insert [THEN subsetD])

lemma list_all_nth: "list_all P xs \<Longrightarrow> i < length xs \<Longrightarrow> P (xs ! i)"
  by (simp add: list_all_length)

lemma worker_return_inv:
  assumes inv: "pipeline_inv p" and i: "i < length (pool p)" and w: "pool p ! i = Some w"
  shows "pipeline_inv (worker_return i w p)"
proof -
  from inv have "list_all worker_ok (pool p)"
    by (simp add: pipeline_inv_def)
  from list_all_nth [OF this i] w have ok: "worker_ok (Some w)"
    by simp
  have all: "list_all worker_ok ((pool p)[i := None])"
    using inv by (simp add: pipeline_inv_def list_all_update worker_ok_def)
  have s: "sum_list (map worker_count ((pool p)[i := None])) =
           sum_list (map worker_count (pool p)) - (processed (locals w) + skipped (locals w))"
    using sum_list_map_update [OF i, of worker_count None] w
    by (simp add: worker_count_def)
  show ?thesis
    using inv ok all s
    by (simp add: pipeline_inv_def worker_return_def flushStats_def UpdateStats_def worker_ok_def)
qed

lemma worker_tick_inv:
  assumes inv: "pipeline_inv p" and i: "i < length (pool p)" and w: "pool p ! i = Some w"
  shows "pipeline_inv (worker_continue i \<lparr> locals = localStats_zero, clean = 0 \<rparr> (flushStats p w))"
proof -
  let ?z = "Some \<lparr> locals = localStats_zero, clean = 0 \<rparr>"
  from inv have "list_all worker_ok (pool p)"
    by (simp add: pipeline_inv_def)
  from list_all_nth [OF this i] w have ok: "worker_ok (Some w)"
    by simp
  have all: "list_all worker_ok ((pool p)[i := ?z])"
    using inv by (simp add: pipeline_inv_def list_all_update worker_ok_def localStats_zero_def)
  have s: "sum_list (map worker_count ((pool p)[i := ?z])) =
           sum_list (map worker_count (pool p)) - (processed (locals w) + skipped (locals w))"
    using sum_list_map_update [OF i, of worker_count ?z] w
    by (simp add: worker_count_def localStats_zero_def)
  show ?thesis
    using inv ok all s
    by (simp add: pipeline_inv_def worker_continue_def flushStats_def UpdateStats_def worker_ok_def)
qed

text \<open>A worker that has taken a URL off the channel and counted it once, or not at all.\<close>

lemma worker_continue_inv:
  assumes inv: "pipeline_inv p" and i: "i < length (pool p)" and w: "pool p ! i = Some w"
    and chan: "urlChan p = rawURL # rest"
    and ok': "worker_ok (Some w')"
    and cnt: "worker_count (Some w') \<le> worker_count (Some w) + 1"
    and q: "pool q = pool p" "stats q = stats p" "cleanTotal q = cleanTotal p"
           "toSend q = toSend p" "urlChan q = rest"
  shows "pipeline_inv (worker_continue i w' q)"
proof -
  have all: "list_all worker_ok ((pool p)[i := Some w'])"
    using inv ok' by (simp add: pipeline_inv_def list_all_update)
  have s: "sum_list (map worker_count ((pool p)[i := Some w'])) =
           sum_list (map worker_count (pool p)) - worker_count (Some w) + worker_count (Some w')"
    using sum_list_map_update [OF i, of worker_count "Some w'"] w by simp
  show ?thesis
    using inv all s cnt chan q
    by (simp add: pipeline_inv_def worker_continue_def)
qed

lemma worker_drop_inv:
  assumes inv: "pipeline_inv p" and i: "i < length (pool p)" and w: "pool p ! i = Some w"
    and chan: "urlChan p = rawURL # rest"
    and q: "pool q = pool p" "stats q = stats p" "cleanTotal q = cleanTotal p"
           "toSend q = toSend p" "urlChan q = rest"
  shows "pipeline_inv (worker_return i w q)"
proof -
  have "pipeline_inv q"
    using inv chan q by (simp add: pipeline_inv_def)
  moreover have "i < length (pool q)" "pool q ! i = Some w"
    using i w q by simp_all
  ultimately show ?thesis
    by (rule worker_return_inv)
qed

lemma worker_url_inv:
  assumes inv: "pipeline_inv p" and i: "i < length (pool p)" and w: "pool p ! i = Some w"
    and chan: "urlChan p = rawURL # rest"
  shows "pipeline_inv (worker_url v parseOK tbl i w sendOK rawURL (p \<lparr> urlChan := rest \<rparr>))"
proof -
  from inv have "list_all worker_ok (pool p)"
    by (simp add: pipeline_inv_def)
  from list_all_nth [OF this i] w have ok: "worker_ok (Some w)"
    by simp
  obtain sus category reason checker' where
    cls: "isSuspicious tbl (sharedChecker p) rawURL = ((sus, category, reason), checker')"
    by (cases "isSuspicious tbl (sharedChecker p) rawURL") auto
  note cont = worker_continue_inv [OF inv i w chan]
  note drop = worker_drop_inv [OF inv i w chan]
  show ?thesis
    unfolding worker_url_def Let_def
    using ok cls
    by (auto intro!: cont drop simp: worker_ok_def worker_count_def)
qed

lemma worker_select_inv:
  assumes inv: "pipeline_inv p"
  shows "pipeline_inv (worker_select v parseOK tbl i ev p)"
proof (cases "length (pool p) \<le> i")
  case True
  with inv show ?thesis by (simp add: worker_select_def)
next
  case False
  then have i: "i < length (pool p)" by simp
  show ?thesis
  proof (cases "pool p ! i")
    case None
    with inv i show ?thesis by (simp add: worker_select_def)
  next
    case (Some w)
    show ?thesis
    proof (cases ev)
      case CtxDone
      with i Some worker_return_inv [OF inv i Some] show ?thesis
        by (simp add: worker_select_def)
    next
      case Tick
      with i Some worker_tick_inv [OF inv i Some] show ?thesis
        by (simp add: worker_select_def)
    next
      case (Recv sendOK)
      show ?thesis
      proof (cases "urlChan p")
        case Nil
        with i Some Recv inv worker_return_inv [OF inv i Some] show ?thesis
          by (simp add: worker_select_def)
      next
        case (Cons rawURL rest)
        with i Some Recv worker_url_inv [OF inv i Some Cons] show ?thesis
          by (simp add: worker_select_def)
      qed
    qed
  qed
qed

lemma pipeline_step_inv: "pipeline_inv p \<Longrightarrow> pipeline_inv (pipeline_step v parseOK tbl a p)"
proof (cases a)
  case Send
  assume "pipeline_inv p"
  then show ?thesis
    using Send by (auto simp: pipeline_step_def pipeline_inv_def split: list.splits)
next
  case CloseURLs
  assume "pipeline_inv p"
  then show ?thesis
    using CloseURLs by (auto simp: pipeline_step_def pipeline_inv_def)
next
  case (Work i ev)
  assume "pipeline_inv p"
  then show ?thesis
    using Work by (simp add: pipeline_step_def worker_select_inv)
qed

lemma pipeline_run_inv: "pipeline_inv p \<Longrightarrow> pipeline_inv (pipeline_run v parseOK tbl sched p)"
  unfolding pipeline_run_def
  by (induction sched arbitrary: p) (simp_all add: pipeline_step_inv)

lemma worker_url_total:
  "TotalURLs (stats (worker_url v parseOK tbl i w sendOK rawURL p)) = TotalURLs (stats p)"
  by (simp add: worker_url_def Let_def worker_continue_def worker_return_def flushStats_def
        UpdateStats_def split: prod.splits)

lemma pipeline_step_total:
  "TotalURLs (stats (pipeline_step v parseOK tbl a p)) = TotalURLs (stats p)"
  by (simp add: pipeline_step_def worker_select_def worker_url_total worker_continue_def
        worker_return_def flushStats_def UpdateStats_def
        split: Action.splits Event.splits list.splits option.splits)

lemma pipeline_run_total:
  "TotalURLs (stats (pipeline_run v parseOK tbl sched p)) = TotalURLs (stats p)"
  unfolding pipeline_run_def
  by (induction sched arbitrary: p) (simp_all add: pipeline_step_total)

lemma sum_list_replicate_zero: "sum_list (replicate n (0::int)) = 0"
  by (induction n) simp_all

lemma processURLs_start_inv: "pipeline_inv (processURLs_start urls n checker)"
  by (simp add: pipeline_inv_def processURLs_start_def list_all_iff worker_ok_def
        worker_count_def localStats_zero_def sum_list_replicate_zero)

lemma worker_count_nonneg: "list_all worker_ok ws \<Longrightarrow> 0 \<le> sum_list (map worker_count ws)"
  by (induction ws) (auto simp: worker_ok_def worker_count_def split: option.splits)

lemma loadURLs_length: "length (loadURLs lines) \<le> length lines"
  unfolding loadURLs_def
  by (rule order_trans [OF length_filter_le]) simp

text \<open>
  C3, as amended. In every state of a run of \<open>processURLs\<close>, whatever the order in which
  the sender and the workers take their steps, whenever the ticker fires and whenever
  the context is cancelled, the shared statistics satisfy
  processed = suspicious + clean + invalid, where clean counts the URLs classified as
  not suspicious, and 0 \<le> suspicious \<le> processed \<le> total, where total is the number of
  URLs handed to \<open>processURLs\<close>; and that number is at most the number of input lines,
  since \<open>processFile\<close> drops the empty lines and the comments before it.
\<close>

theorem stats_invariant:
  "(let p = pipeline_run validateURLs parseOK tbl schedule (processURLs_start urls n checker);
        s = stats p
    in ProcessedURLs s = SuspiciousURLs s + cleanTotal p + InvalidURLs s \<and>
       0 \<le> SuspiciousURLs s \<and> 0 \<le> cleanTotal p \<and> 0 \<le> InvalidURLs s \<and>
       SuspiciousURLs s \<le> ProcessedURLs s \<and>
       ProcessedURLs s \<le> TotalURLs s \<and>
       TotalURLs s = int (length urls))
   \<and> int (length (loadURLs lines)) \<le> int (length lines)"
proof -
  let ?p = "pipeline_run validateURLs parseOK tbl schedule (processURLs_start urls n checker)"
  have inv: "pipeline_inv ?p"
    by (rule pipeline_run_inv) (rule processURLs_start_inv)
  then have "list_all worker_ok (pool ?p)"
    by (simp add: pipeline_inv_def)
  then have nn: "0 \<le> sum_list (map worker_count (pool ?p))"
    by (rule worker_count_nonneg)
  have tot: "TotalURLs (stats ?p) = int (length urls)"
    by (simp add: pipeline_run_total processURLs_start_def)
  have "ProcessedURLs (stats ?p) = SuspiciousURLs (stats ?p) + cleanTotal ?p + InvalidURLs (stats ?p) \<and>
       0 \<le> SuspiciousURLs (stats ?p) \<and> 0 \<le> cleanTotal ?p \<and> 0 \<le> InvalidURLs (stats ?p) \<and>
       SuspiciousURLs (stats ?p) \<le> ProcessedURLs (stats ?p) \<and>
       ProcessedURLs (stats ?p) \<le> TotalURLs (stats ?p) \<and>
       TotalURLs (stats ?p) = int (length urls)"
    using inv nn tot by (simp add: pipeline_inv_def)
  then show ?thesis
    using loadURLs_length [of lines] by (simp add: Let_def)
qed

text \<open>
  The claim C3 as stated, processed = suspicious + valid-but-clean, fails on the run of
  \<open>TestProcessURLs\<close> (validation on, two workers, four URLs of which \<open>url.Parse\<close> rejects
  the last): at its end two URLs are suspicious and one is valid and clean, and
  processed is 4, because the invalid URL is counted as processed too.
\<close>

theorem processed_counts_invalid_counterexample:
  "(let p = pipeline_run True (\<lambda>u. u \<noteq> ''://invalid-url'') test_patterns
              [Send, Send, Send, Send, Work 0 (Recv True), Work 1 (Recv True),
               Work 0 (Recv True), Work 1 (Recv True), CloseURLs,
               Work 0 (Recv True), Work 1 (Recv True)]
              (processURLs_start
                 [''http://clean.com'', ''http://bad.com/evil'', ''http://bad.com/evil.exe'',
                  ''://invalid-url'']
                 2 (URLChecker_literal False True True False []))
    in stats p = \<lparr> TotalURLs = 4, SuspiciousURLs = 2, InvalidURLs = 1, ProcessedURLs = 4,
                   SkippedURLs = 0 \<rparr> \<and>
       cleanTotal p = 1 \<and> pool p = [None, None] \<and>
       ProcessedURLs (stats p) \<noteq> SuspiciousURLs (stats p) + cleanTotal p)"
  by code_simp

section \<open>A deadline that passes during a run\<close>

lemma processLargeFile_loop_fill:
  assumes u: "TrimSpace u = u" "u \<noteq> []" "\<not> HasPrefix u ''#''" "\<not> HasPrefix u ''//''"
  shows "length chunk + n < chunkSize \<Longrightarrow>
    processLargeFile_loop ctx run (replicate n u @ rest) lineCount chunk allResults totalStats =
    processLargeFile_loop ctx run rest (lineCount + n) (chunk @ replicate n u) allResults totalStats"
proof (induction n arbitrary: lineCount chunk)
  case 0
  show ?case by simp
next
  case (Suc n)
  have "length (chunk @ [u]) + n < chunkSize"
    using Suc.prems by simp
  from Suc.IH [OF this, of "lineCount + 1"] show ?case
    using u Suc.prems by (simp add: Let_def replicate_app_Cons_same)
qed

lemma processLargeFile_loop_timeout:
  assumes u: "TrimSpace u = u" "u \<noteq> []" "\<not> HasPrefix u ''#''" "\<not> HasPrefix u ''//''"
    and full: "length chunk + 1 = chunkSize"
    and r: "run (chunk @ [u]) = (results, sts, Some DeadlineExceeded)"
    and c: "ctx (lineCount + 1) = Some e"
  shows "processLargeFile_loop ctx run (u # rest) lineCount chunk allResults totalStats = Inl e"
  using u full r c by (simp add: Let_def hardError_def)

lemma exampleURL_line:
  "TrimSpace exampleURL = exampleURL" "exampleURL \<noteq> []"
  "\<not> HasPrefix exampleURL ''#''" "\<not> HasPrefix exampleURL ''//''"
  by (simp_all add: exampleURL_def TrimSpace_def isSpaceByte_def)

text \<open>The path for a file of at most 50 MB delivers what was collected.\<close>

lemma set_sort_key_URL: "set (sort_key URL rs) = set rs"
  by simp

lemma processFile_timeout_delivers:
  assumes "statOK file" "fileSize file \<le> 50 * 1024 * 1024" "openOK file" "scanOK file"
    and "loadLoop ctx (fileLines file) 0 [] = Inr urls"
    and "run urls = (results, sts, Some DeadlineExceeded)"
    and "createOK \<or> outputPath = []"
  shows "processFile ctx run createOK verbose outputPath file =
           \<lparr> returned = None, sink = sort_key URL (removeDuplicates results),
             statsShown = (if verbose then Some sts else None) \<rparr>"
    and "set (map URL (sink (processFile ctx run createOK verbose outputPath file))) =
           set (map URL results)"
    and "main_exit (processFile ctx run createOK verbose outputPath file) = 0"
proof -
  show out: "processFile ctx run createOK verbose outputPath file =
           \<lparr> returned = None, sink = sort_key URL (removeDuplicates results),
             statsShown = (if verbose then Some sts else None) \<rparr>"
    using assms
    by (auto simp: processFile_def maxFileSize_def hardError_def deliver_def writeResults_def
          Let_def)
  have "set (map URL (sort_key URL (removeDuplicates results))) = set (map URL results)"
    by (simp add: removeDuplicates_firstOccurrences firstOccurrences_set [simplified])
  then show "set (map URL (sink (processFile ctx run createOK verbose outputPath file))) =
           set (map URL results)"
    by (simp only: out Outcome.simps)
  show "main_exit (processFile ctx run createOK verbose outputPath file) = 0"
    by (simp add: out main_exit_def)
qed

text \<open>The entry point of cmd/juicyurls tells a deadline from a failure of the input;
  \<open>main\<close> of main.go gives both the same status.\<close>

lemma cmd_main_exit_deadline:
  "cmd_main_exit (Some DeadlineExceeded) = 0"
  "cmd_main_exit (Some OpenError) = 1"
  "main_exit (failed DeadlineExceeded) = 1"
  "main_exit (failed OpenError) = 1"
  by (simp_all add: cmd_main_exit_def main_exit_def failed_def)

text \<open>
  C8 (the code departs from the claim). When the deadline passes while
  \<open>processLargeFile\<close> handles a chunk that is not the last one, \<open>processURLs\<close> returns
  the results it has collected together with \<open>context.DeadlineExceeded\<close>, the loop keeps
  them, and the check of the context that follows returns the error: nothing is written,
  no statistics are printed, and \<open>main\<close> exits with status 1 as for any other error.
  (For a file of at most 50 MB the results collected before the deadline are written:
  \<open>processFile_timeout_delivers\<close>.)
\<close>

theorem processLargeFile_timeout_discards:
  "processFile deadlineInFirstChunk timedOutRun True True ''out.txt'' largeFile
     = \<lparr> returned = Some DeadlineExceeded, sink = [], statsShown = None \<rparr>
   \<and> main_exit (processFile deadlineInFirstChunk timedOutRun True True ''out.txt'' largeFile) = 1
   \<and> fst (timedOutRun (replicate chunkSize exampleURL)) \<noteq> []"
proof -
  have split: "replicate 2000000 exampleURL =
      replicate 49999 exampleURL @ exampleURL # replicate 1950000 exampleURL"
  proof -
    have "replicate 49999 exampleURL @ exampleURL # replicate 1950000 exampleURL
        = replicate (49999 + Suc 1950000) exampleURL"
      by (simp only: replicate_add replicate_Suc)
    then show ?thesis by simp
  qed
  have fill: "processLargeFile_loop deadlineInFirstChunk timedOutRun
      (replicate 49999 exampleURL @ exampleURL # replicate 1950000 exampleURL) 0 [] [] stats_zero
    = processLargeFile_loop deadlineInFirstChunk timedOutRun
        (exampleURL # replicate 1950000 exampleURL) (0 + 49999)
        ([] @ replicate 49999 exampleURL) [] stats_zero"
    by (rule processLargeFile_loop_fill [OF exampleURL_line]) (simp add: chunkSize_def)
  have stop: "processLargeFile_loop deadlineInFirstChunk timedOutRun
        (exampleURL # replicate 1950000 exampleURL) (0 + 49999)
        ([] @ replicate 49999 exampleURL) [] stats_zero = Inl DeadlineExceeded"
    by (rule processLargeFile_loop_timeout [OF exampleURL_line])
       (simp_all add: chunkSize_def timedOutRun_def deadlineInFirstChunk_def)
  have loop: "processLargeFile_loop deadlineInFirstChunk timedOutRun (fileLines largeFile) 0 [] []
      stats_zero = Inl DeadlineExceeded"
    using fill stop by (simp only: largeFile_def InputFile.simps split)
  have out: "processFile deadlineInFirstChunk timedOutRun True True ''out.txt'' largeFile
     = \<lparr> returned = Some DeadlineExceeded, sink = [], statsShown = None \<rparr>"
    using loop
    by (simp add: processFile_def processLargeFile_def failed_def largeFile_def maxFileSize_def)
  have ex: "main_exit \<lparr> returned = Some DeadlineExceeded, sink = [], statsShown = None \<rparr> = 1"
    by (simp add: main_exit_def)
  have got: "fst (timedOutRun (replicate chunkSize exampleURL)) \<noteq> []"
    by (simp add: timedOutRun_def)
  from out ex got show ?thesis
    by (simp only: simp_thms)
qed

end
